theory Spec2Isabelle
  imports Complex_Main
begin

section \<open>The JavaScript platform, as far as the invoice form uses it\<close>

subsection \<open>Strings\<close>

text \<open>
  Strings are lists of characters.  The platform functions below are modelled on the
  strings this program feeds them: \<open>Number\<close> on the parts of a date string (digit
  strings and the empty string; signs, fractions, exponents and radix prefixes are not
  modelled and read as \<open>NaN\<close>), \<open>trim\<close> and \<open>toUpperCase\<close> on ASCII.
\<close>

definition isDigit :: "char \<Rightarrow> bool" where
  "isDigit c = (48 \<le> (of_char c :: nat) \<and> (of_char c :: nat) \<le> 57)"

definition digitVal :: "char \<Rightarrow> int" where
  "digitVal c = int (of_char c) - 48"

text \<open>\<open>s.split(sep)\<close> for a one-character separator: never the empty list.\<close>

fun js_split :: "char \<Rightarrow> string \<Rightarrow> string list" where
  "js_split sep [] = [[]]"
| "js_split sep (c # cs) =
     (if c = sep then [] # js_split sep cs
      else (case js_split sep cs of [] \<Rightarrow> [[c]] | p # ps \<Rightarrow> (c # p) # ps))"

text \<open>\<open>Number(s)\<close>: \<open>None\<close> is \<open>NaN\<close>; \<open>Number('')\<close> is \<open>0\<close>.\<close>

definition js_Number :: "string \<Rightarrow> int option" where
  "js_Number s =
     (if list_all isDigit s then Some (foldl (\<lambda>a c. 10 * a + digitVal c) 0 s) else None)"

definition digitChar :: "nat \<Rightarrow> char" where
  "digitChar n = char_of (48 + n)"

function decimal :: "nat \<Rightarrow> string" where
  "decimal n = (if n < 10 then [digitChar n] else decimal (n div 10) @ [digitChar (n mod 10)])"
  by pat_completeness auto
termination
  by (relation "measure id") auto

declare decimal.simps [simp del]

text \<open>\<open>String(n).padStart(w, '0')\<close>.\<close>

definition padStart :: "nat \<Rightarrow> nat \<Rightarrow> string" where
  "padStart w n = replicate (w - length (decimal n)) (CHR ''0'') @ decimal n"

definition isWhiteSpace :: "char \<Rightarrow> bool" where
  "isWhiteSpace c = ((of_char c :: nat) \<in> {9, 10, 11, 12, 13, 32})"

definition trim :: "string \<Rightarrow> string" where
  "trim s = rev (dropWhile isWhiteSpace (rev (dropWhile isWhiteSpace s)))"

definition toUpperChar :: "char \<Rightarrow> char" where
  "toUpperChar c =
     (if 97 \<le> (of_char c :: nat) \<and> (of_char c :: nat) \<le> 122
      then char_of ((of_char c :: nat) - 32) else c)"

definition toUpperCase :: "string \<Rightarrow> string" where
  "toUpperCase s = map toUpperChar s"

text \<open>\<open>s.includes(t)\<close>: \<open>t\<close> occurs in \<open>s\<close> as a contiguous block.\<close>

fun startsWith :: "string \<Rightarrow> string \<Rightarrow> bool" where
  "startsWith s [] = True"
| "startsWith [] (d # ds) = False"
| "startsWith (c # cs) (d # ds) = (c = d \<and> startsWith cs ds)"

fun js_includes :: "string \<Rightarrow> string \<Rightarrow> bool" where
  "js_includes [] t = (t = [])"
| "js_includes (c # cs) t = (startsWith (c # cs) t \<or> js_includes cs t)"

text \<open>\<open>a > b\<close> on strings: lexicographic by code unit.\<close>

fun str_less :: "string \<Rightarrow> string \<Rightarrow> bool" where
  "str_less [] [] = False"
| "str_less [] (d # ds) = True"
| "str_less (c # cs) [] = False"
| "str_less (c # cs) (d # ds) =
     ((of_char c :: nat) < of_char d \<or> (c = d \<and> str_less cs ds))"

subsection \<open>Dates\<close>

text \<open>
  Every \<open>Date\<close> object of this program is built by \<open>Date.UTC(year, month, day)\<close> and
  so stands at midnight UTC: a valid one is modelled by its day number (days since
  1970-01-01), an invalid one (time value \<open>NaN\<close>) by \<open>InvalidDate\<close>.  The calendar
  functions follow ECMAScript's definitions.
\<close>

datatype Date = InvalidDate | UTCDay int

definition DayFromYear :: "int \<Rightarrow> int" where
  "DayFromYear y =
     365 * (y - 1970) + (y - 1969) div 4 - (y - 1901) div 100 + (y - 1601) div 400"

definition DaysInYear :: "int \<Rightarrow> int" where
  "DaysInYear y =
     (if y mod 4 \<noteq> 0 then 365 else if y mod 100 \<noteq> 0 then 366
      else if y mod 400 \<noteq> 0 then 365 else 366)"

lemma div_step:
  fixes a n :: int
  assumes "0 < n"
  shows "(a + 1) div n = a div n + (if n dvd (a + 1) then 1 else 0)"
proof (cases "n dvd (a + 1)")
  case True
  then obtain k where k: "a + 1 = n * k" by (auto simp: dvd_def)
  then have a: "a = n * (k - 1) + (n - 1)" by (simp add: algebra_simps)
  have "a div n = k - 1"
    using assms by (subst a) (simp add: div_pos_pos_trivial)
  moreover have "(a + 1) div n = k" using assms k by simp
  ultimately show ?thesis using True by simp
next
  case False
  then have nz: "(a + 1) mod n \<noteq> 0" by (simp add: dvd_eq_mod_eq_0)
  have m: "a mod n + 1 < n"
  proof -
    have "a mod n < n" using assms by simp
    moreover have "a mod n + 1 \<noteq> n"
    proof
      assume "a mod n + 1 = n"
      then have "(a mod n + 1) mod n = 0" by simp
      then have "(a + 1) mod n = 0" by (simp add: mod_add_left_eq)
      with nz show False by simp
    qed
    ultimately show ?thesis by simp
  qed
  have "0 \<le> a mod n" using assms by simp
  have "(a + 1) div n = (n * (a div n) + (a mod n + 1)) div n" by simp
  also have "\<dots> = a div n + (a mod n + 1) div n"
    using assms by (simp only: div_mult_self2 [OF less_imp_neq [THEN not_sym]] add.commute)
  also have "(a mod n + 1) div n = 0"
    using m \<open>0 \<le> a mod n\<close> by (simp add: div_pos_pos_trivial)
  finally show ?thesis using False by simp
qed

lemma DaysInYear_dvd:
  "DaysInYear y =
     (if \<not> 4 dvd y then 365 else if \<not> 100 dvd y then 366
      else if \<not> 400 dvd y then 365 else 366)"
  by (simp add: DaysInYear_def dvd_eq_mod_eq_0)

lemma DayFromYear_Suc: "DayFromYear (y + 1) = DayFromYear y + DaysInYear y"
proof -
  have d4: "(y + 1 - 1969) div 4 = (y - 1969) div 4 + (if 4 dvd y then 1 else 0)"
  proof -
    have "(4::int) dvd 1968" by simp
    then have "4 dvd (y - 1968) \<longleftrightarrow> 4 dvd y" by (rule dvd_diff_left_iff)
    moreover have "y + 1 - 1969 = (y - 1969) + 1" "y - 1969 + 1 = y - 1968" by simp_all
    ultimately show ?thesis using div_step [of 4 "y - 1969"] by simp
  qed
  have d100: "(y + 1 - 1901) div 100 = (y - 1901) div 100 + (if 100 dvd y then 1 else 0)"
  proof -
    have "(100::int) dvd 1900" by simp
    then have "100 dvd (y - 1900) \<longleftrightarrow> 100 dvd y" by (rule dvd_diff_left_iff)
    moreover have "y + 1 - 1901 = (y - 1901) + 1" "y - 1901 + 1 = y - 1900" by simp_all
    ultimately show ?thesis using div_step [of 100 "y - 1901"] by simp
  qed
  have d400: "(y + 1 - 1601) div 400 = (y - 1601) div 400 + (if 400 dvd y then 1 else 0)"
  proof -
    have "(400::int) dvd 1600" by simp
    then have "400 dvd (y - 1600) \<longleftrightarrow> 400 dvd y" by (rule dvd_diff_left_iff)
    moreover have "y + 1 - 1601 = (y - 1601) + 1" "y - 1601 + 1 = y - 1600" by simp_all
    ultimately show ?thesis using div_step [of 400 "y - 1601"] by simp
  qed
  have c1: "400 dvd y \<Longrightarrow> 100 dvd y"
    by (rule dvd_trans [of 100 400 y]) simp_all
  have c2: "100 dvd y \<Longrightarrow> 4 dvd y"
    by (rule dvd_trans [of 4 100 y]) simp_all
  show ?thesis
    unfolding DayFromYear_def DaysInYear_dvd d4 d100 d400
    using c1 c2 by auto
qed

text \<open>
  \<open>YearFromTime(t)\<close> is the largest \<open>y\<close> with \<open>DayFromYear(y) \<le> t\<close>; it is found by
  walking up from an estimate that is never too large.
\<close>

function yearSearch :: "int \<Rightarrow> int \<Rightarrow> int" where
  "yearSearch t y = (if DayFromYear (y + 1) \<le> t then yearSearch t (y + 1) else y)"
  by pat_completeness auto
termination
proof (relation "measure (\<lambda>(t, y). nat (t - DayFromYear (y + 1) + 1))")
  show "wf (measure (\<lambda>(t, y). nat (t - DayFromYear (y + 1) + 1)))" by simp
next
  fix t y :: int
  assume "DayFromYear (y + 1) \<le> t"
  moreover have "DayFromYear (y + 1 + 1) > DayFromYear (y + 1)"
    by (simp only: DayFromYear_Suc [of "y + 1"]) (simp add: DaysInYear_def)
  ultimately show "((t, y + 1), (t, y)) \<in> measure (\<lambda>(t, y). nat (t - DayFromYear (y + 1) + 1))"
    by simp
qed

declare yearSearch.simps [simp del]

definition YearFromTime :: "int \<Rightarrow> int" where
  "YearFromTime t = yearSearch t (1970 + (if 0 \<le> t then t div 366 else t div 365))"

definition InLeapYear :: "int \<Rightarrow> bool" where
  "InLeapYear t = (DaysInYear (YearFromTime t) = 366)"

definition DayWithinYear :: "int \<Rightarrow> int" where
  "DayWithinYear t = t - DayFromYear (YearFromTime t)"

text \<open>The day within the year on which month \<open>m\<close> (0 to 11) starts.\<close>

definition monthStart :: "bool \<Rightarrow> int \<Rightarrow> int" where
  "monthStart leap m =
     (let L = (if leap then 1 else 0) in
      if m = 0 then 0 else if m = 1 then 31 else if m = 2 then 59 + L
      else if m = 3 then 90 + L else if m = 4 then 120 + L else if m = 5 then 151 + L
      else if m = 6 then 181 + L else if m = 7 then 212 + L else if m = 8 then 243 + L
      else if m = 9 then 273 + L else if m = 10 then 304 + L else 334 + L)"

definition monthOfDay :: "bool \<Rightarrow> int \<Rightarrow> int" where
  "monthOfDay leap d =
     (let L = (if leap then 1 else 0) in
      if d < 31 then 0 else if d < 59 + L then 1 else if d < 90 + L then 2
      else if d < 120 + L then 3 else if d < 151 + L then 4 else if d < 181 + L then 5
      else if d < 212 + L then 6 else if d < 243 + L then 7 else if d < 273 + L then 8
      else if d < 304 + L then 9 else if d < 334 + L then 10 else 11)"

definition MonthFromTime :: "int \<Rightarrow> int" where
  "MonthFromTime t = monthOfDay (InLeapYear t) (DayWithinYear t)"

definition DateFromTime :: "int \<Rightarrow> int" where
  "DateFromTime t = DayWithinYear t - monthStart (InLeapYear t) (MonthFromTime t) + 1"

text \<open>\<open>WeekDay\<close>: 0 is Sunday, 6 is Saturday; 1970-01-01 was a Thursday.\<close>

definition WeekDay :: "int \<Rightarrow> int" where
  "WeekDay t = (t + 4) mod 7"

definition MakeDay :: "int \<Rightarrow> int \<Rightarrow> int \<Rightarrow> int" where
  "MakeDay year month date =
     (let ym = year + month div 12; mn = month mod 12 in
      DayFromYear ym + monthStart (DaysInYear ym = 366) mn + date - 1)"

text \<open>\<open>TimeClip\<close>: a time value beyond 8.64e15 ms (100 000 000 days) is \<open>NaN\<close>.\<close>

definition TimeClip :: "int \<Rightarrow> Date" where
  "TimeClip d = (if \<bar>d\<bar> > 100000000 then InvalidDate else UTCDay d)"

text \<open>\<open>new Date(Date.UTC(year, month, date))\<close>: a year from 0 to 99 means 1900 + year.\<close>

definition Date_UTC :: "int \<Rightarrow> int \<Rightarrow> int \<Rightarrow> Date" where
  "Date_UTC year month date =
     TimeClip (MakeDay (if 0 \<le> year \<and> year \<le> 99 then 1900 + year else year) month date)"

text \<open>\<open>date.setUTCDate(date.getUTCDate() + k)\<close>.\<close>

fun addUTCDate :: "Date \<Rightarrow> int \<Rightarrow> Date" where
  "addUTCDate InvalidDate k = InvalidDate"
| "addUTCDate (UTCDay t) k =
     TimeClip (MakeDay (YearFromTime t) (MonthFromTime t) (DateFromTime t + k))"

subsection \<open>Facts about the calendar\<close>

lemma DaysInYear_bounds: "365 \<le> DaysInYear y" "DaysInYear y \<le> 366"
  by (simp_all add: DaysInYear_def)

lemma DayFromYear_mono_add: "DayFromYear y + 365 * int n \<le> DayFromYear (y + int n)"
proof (induction n)
  case 0
  then show ?case by simp
next
  case (Suc n)
  have "y + int (Suc n) = (y + int n) + 1" by simp
  then have "DayFromYear (y + int (Suc n)) = DayFromYear (y + int n) + DaysInYear (y + int n)"
    by (simp only: DayFromYear_Suc)
  with Suc DaysInYear_bounds(1) [of "y + int n"] show ?case by simp
qed

lemma DayFromYear_upper_add: "DayFromYear (y + int n) \<le> DayFromYear y + 366 * int n"
proof (induction n)
  case 0
  then show ?case by simp
next
  case (Suc n)
  have "y + int (Suc n) = (y + int n) + 1" by simp
  then have "DayFromYear (y + int (Suc n)) = DayFromYear (y + int n) + DaysInYear (y + int n)"
    by (simp only: DayFromYear_Suc)
  with Suc DaysInYear_bounds(2) [of "y + int n"] show ?case by simp
qed

lemma DayFromYear_mono: "y \<le> y' \<Longrightarrow> DayFromYear y \<le> DayFromYear y'"
  using DayFromYear_mono_add [of y "nat (y' - y)"] by simp

lemma DayFromYear_strict: "y < y' \<Longrightarrow> DayFromYear y < DayFromYear y'"
  using DayFromYear_mono_add [of y "nat (y' - y)"] by simp

lemma DayFromYear_1970: "DayFromYear 1970 = 0"
  by (simp add: DayFromYear_def)

lemma yearSearch_correct:
  "DayFromYear y \<le> t \<Longrightarrow>
   DayFromYear (yearSearch t y) \<le> t \<and> t < DayFromYear (yearSearch t y + 1)"
proof (induction t y rule: yearSearch.induct)
  case (1 t y)
  show ?case
  proof (cases "DayFromYear (y + 1) \<le> t")
    case True
    with "1.IH" show ?thesis by (subst (1 2) yearSearch.simps) simp
  next
    case False
    with "1.prems" show ?thesis by (subst (1 2) yearSearch.simps) simp
  qed
qed

lemma estimate_ok:
  "DayFromYear (1970 + (if 0 \<le> t then t div 366 else t div 365)) \<le> t"
proof (cases "0 \<le> t")
  case True
  define q where "q = nat (t div 366)"
  have q: "int q = t div 366" using True by (simp add: q_def pos_imp_zdiv_nonneg_iff)
  have "DayFromYear (1970 + int q) \<le> 366 * int q"
    using DayFromYear_upper_add [of 1970 q] by (simp add: DayFromYear_1970)
  moreover have "366 * (t div 366) \<le> t"
    using pos_mod_sign [of 366 t] mult_div_mod_eq [of 366 t] by linarith
  ultimately show ?thesis using True q by simp
next
  case False
  define n where "n = nat (- (t div 365))"
  have "t div 365 < 0" using False by (simp add: div_neg_pos_less0)
  then have n: "t div 365 = - int n" by (simp add: n_def)
  have "DayFromYear (1970 - int n) + 365 * int n \<le> DayFromYear (1970 - int n + int n)"
    by (rule DayFromYear_mono_add)
  then have "DayFromYear (1970 - int n) \<le> - 365 * int n" by (simp add: DayFromYear_1970)
  moreover have "365 * (t div 365) \<le> t"
    using pos_mod_sign [of 365 t] mult_div_mod_eq [of 365 t] by linarith
  ultimately show ?thesis using False n by simp
qed

lemma YearFromTime_correct:
  "DayFromYear (YearFromTime t) \<le> t" "t < DayFromYear (YearFromTime t + 1)"
  using yearSearch_correct [OF estimate_ok [of t]] by (simp_all add: YearFromTime_def)

lemma YearFromTime_unique:
  assumes "DayFromYear y \<le> t" "t < DayFromYear (y + 1)"
  shows "YearFromTime t = y"
proof (rule ccontr)
  assume ne: "YearFromTime t \<noteq> y"
  show False
  proof (cases "YearFromTime t < y")
    case True
    then have "DayFromYear (YearFromTime t + 1) \<le> DayFromYear y"
      by (intro DayFromYear_mono) simp
    with YearFromTime_correct(2) [of t] assms show False by simp
  next
    case False
    with ne have "DayFromYear (y + 1) \<le> DayFromYear (YearFromTime t)"
      by (intro DayFromYear_mono) simp
    with YearFromTime_correct(1) [of t] assms show False by simp
  qed
qed

lemma DayWithinYear_bounds:
  "0 \<le> DayWithinYear t" "DayWithinYear t < DaysInYear (YearFromTime t)"
  using YearFromTime_correct [of t] DayFromYear_Suc [of "YearFromTime t"]
  by (simp_all add: DayWithinYear_def)

lemma monthOfDay_bounds: "0 \<le> monthOfDay b d" "monthOfDay b d \<le> 11"
  by (simp_all add: monthOfDay_def Let_def)

lemma MonthFromTime_bounds: "0 \<le> MonthFromTime t" "MonthFromTime t \<le> 11"
  by (simp_all add: MonthFromTime_def monthOfDay_bounds)

lemma date_table:
  assumes "0 \<le> d" "d < (if b then 366 else 365)"
  shows "1 \<le> d - monthStart b (monthOfDay b d) + 1" "d - monthStart b (monthOfDay b d) + 1 \<le> 31"
  using assms by (cases b; simp add: monthOfDay_def monthStart_def)+

lemma DateFromTime_bounds: "1 \<le> DateFromTime t" "DateFromTime t \<le> 31"
proof -
  have "DayWithinYear t < (if InLeapYear t then 366 else 365)"
    using DayWithinYear_bounds(2) [of t] DaysInYear_bounds [of "YearFromTime t"]
    by (auto simp: InLeapYear_def DaysInYear_def split: if_splits)
  then show "1 \<le> DateFromTime t" "DateFromTime t \<le> 31"
    using date_table [OF DayWithinYear_bounds(1) [of t], of "InLeapYear t"]
    by (simp_all add: DateFromTime_def MonthFromTime_def)
qed


lemma MakeDay_components:
  "MakeDay (YearFromTime t) (MonthFromTime t) (DateFromTime t + k) = t + k"
proof -
  have "MonthFromTime t div 12 = 0" "MonthFromTime t mod 12 = MonthFromTime t"
    using MonthFromTime_bounds [of t] by simp_all
  then show ?thesis
    by (simp add: MakeDay_def DateFromTime_def DayWithinYear_def InLeapYear_def)
qed

lemma addUTCDate_UTCDay: "addUTCDate (UTCDay t) k = TimeClip (t + k)"
  by (simp add: MakeDay_components)

lemma WeekDay_range: "WeekDay t \<in> {0, 1, 2, 3, 4, 5, 6}"
proof -
  have "0 \<le> WeekDay t" "WeekDay t < 7" by (simp_all add: WeekDay_def)
  then show ?thesis by (simp add: insert_iff) arith
qed

lemma WeekDay_minus: "WeekDay (t - k) = (WeekDay t - k) mod 7"
proof -
  have "t - k + 4 = (t + 4) - k" by simp
  then show ?thesis by (simp only: WeekDay_def mod_diff_left_eq)
qed

section \<open>The date helpers of the invoice form\<close>

text \<open>
  A thrown JavaScript error, with the two properties the form reads.
  \<open>toISOString\<close> on an invalid date throws a \<open>RangeError\<close>.
\<close>

datatype js_error = JsError (err_name: string) (err_message: string)

definition RangeError :: js_error where
  "RangeError = JsError ''RangeError'' ''Invalid time value''"

definition Error :: "string \<Rightarrow> js_error" where
  "Error msg = JsError ''Error'' msg"

definition MAX_RATE_LOOKBACK_DAYS :: nat where
  "MAX_RATE_LOOKBACK_DAYS = 10"

definition parseISODate :: "string \<Rightarrow> Date option" where
  "parseISODate dateString =
     (if dateString = [] then None
      else (case map js_Number (js_split (CHR ''-'') dateString) of
              [year, month, day] \<Rightarrow>
                (case (year, month, day) of
                   (Some y, Some m, Some d) \<Rightarrow> Some (Date_UTC y (m - 1) d)
                 | _ \<Rightarrow> None)
            | _ \<Rightarrow> None))"

text \<open>
  The text of \<open>toISOString()\<close> before the \<open>T\<close>: four digits for the years 0 to 9999,
  a sign and six digits otherwise.
\<close>

definition isoDate :: "int \<Rightarrow> string" where
  "isoDate t =
     (let y = YearFromTime t in
      (if 0 \<le> y \<and> y \<le> 9999 then padStart 4 (nat y)
       else (if y < 0 then ''-'' else ''+'') @ padStart 6 (nat \<bar>y\<bar>))
      @ ''-'' @ padStart 2 (nat (MonthFromTime t + 1))
      @ ''-'' @ padStart 2 (nat (DateFromTime t)))"

fun toDateString :: "Date \<Rightarrow> js_error + string" where
  "toDateString InvalidDate = Inl RangeError"
| "toDateString (UTCDay t) = Inr (isoDate t)"

text \<open>
  The loop of \<open>getPreviousBusinessDay\<close>: step back while the day is a Sunday (0) or a
  Saturday (6).  \<open>getUTCDay\<close> of an invalid date is \<open>NaN\<close>, which ends the loop.
\<close>

function skipWeekend :: "Date \<Rightarrow> Date" where
  "skipWeekend InvalidDate = InvalidDate"
| "skipWeekend (UTCDay t) =
     (if WeekDay t = 0 \<or> WeekDay t = 6 then skipWeekend (addUTCDate (UTCDay t) (- 1))
      else UTCDay t)"
  by pat_completeness auto
termination
proof (relation "measure (\<lambda>d. case d of InvalidDate \<Rightarrow> 0
    | UTCDay t \<Rightarrow> nat ((WeekDay t + 2) mod 7) + 1)")
  show "wf (measure (\<lambda>d. case d of InvalidDate \<Rightarrow> 0
      | UTCDay t \<Rightarrow> nat ((WeekDay t + 2) mod 7) + 1))"
    by simp
next
  fix t :: int
  assume "WeekDay t = 0 \<or> WeekDay t = 6"
  then show "(addUTCDate (UTCDay t) (- 1), UTCDay t)
      \<in> measure (\<lambda>d. case d of InvalidDate \<Rightarrow> 0
          | UTCDay t \<Rightarrow> nat ((WeekDay t + 2) mod 7) + 1)"
    by (auto simp: addUTCDate_UTCDay TimeClip_def WeekDay_minus simp del: addUTCDate.simps)
qed

declare skipWeekend.simps [simp del]
declare addUTCDate.simps [simp del]

text \<open>
  \<open>today\<close> is the day number of the current UTC day, read from \<open>new Date()\<close> when the
  reference date is absent or does not parse.
\<close>

definition getPreviousBusinessDay :: "int \<Rightarrow> string \<Rightarrow> js_error + string" where
  "getPreviousBusinessDay today referenceDate =
     (let source = (case parseISODate referenceDate of
                      Some base \<Rightarrow> base
                    | None \<Rightarrow> Date_UTC (YearFromTime today) (MonthFromTime today) (DateFromTime today));
          date = (case source of
                    InvalidDate \<Rightarrow> InvalidDate
                  | UTCDay t \<Rightarrow> Date_UTC (YearFromTime t) (MonthFromTime t) (DateFromTime t))
      in toDateString (skipWeekend (addUTCDate date (- 1))))"

text \<open>How far \<open>getPreviousBusinessDay\<close> steps back from a day, by its day of the week.\<close>

definition stepsBack :: "int \<Rightarrow> int" where
  "stepsBack t = (if WeekDay t = 0 then 2 else if WeekDay t = 1 then 3 else 1)"

text \<open>
  \<open>shiftDateString\<close> destructures the first three parts without a length check; a
  missing or non-numeric part makes the date invalid, and \<open>toDateString\<close> throws.
\<close>

definition shiftDateString :: "string \<Rightarrow> int \<Rightarrow> js_error + string" where
  "shiftDateString dateString offset =
     (case map js_Number (js_split (CHR ''-'') dateString) of
        Some y # Some m # Some d # _ \<Rightarrow> toDateString (addUTCDate (Date_UTC y (m - 1) d) offset)
      | _ \<Rightarrow> toDateString InvalidDate)"

section \<open>The data model\<close>

text \<open>
  Numbers are modelled as reals: the arithmetic is exact, the rounding of IEEE doubles
  is not modelled.
\<close>

record CompanyInfo =
  name :: string
  address :: string
  postalCode :: string
  city :: string
  nip :: string
  bankAccount :: "string option"

record InvoiceItem =
  item_id :: string
  item_name :: string
  quantity :: real
  item_unit :: string
  netPrice :: real
  vatRate :: real

text \<open>
  The exchange-rate state of the invoice.  \<open>types/invoice.ts\<close> does not declare it; its
  three fields are the ones the form (\<open>InvoiceForm.tsx\<close>) reads and writes
  (\<open>value\<close> is \<open>rateValue\<close> here, \<open>None\<close> for \<open>null\<close>).
\<close>

record ExchangeRateState =
  targetDate :: string
  effectiveDate :: string
  rateValue :: "real option"

record InvoiceData =
  invoiceNumber :: string
  issueDate :: string
  saleDate :: string
  paymentDeadline :: string
  paymentMethod :: string
  currency :: string
  seller :: CompanyInfo
  buyer :: CompanyInfo
  items :: "InvoiceItem list"
  notes' :: string
  logo :: "string option"
  exchangeRate :: ExchangeRateState

definition emptyRate :: ExchangeRateState where
  "emptyRate = \<lparr>targetDate = [], effectiveDate = [], rateValue = None\<rparr>"

section \<open>The calculator of the preview\<close>

record VatTotals =
  net :: real
  vat :: real
  gross :: real

record InvoiceCalculations =
  netTotal :: real
  vatTotal :: real
  grossTotal :: real
  vatBreakdown :: "(real \<times> VatTotals) list"

definition isPercentageRate :: "real \<Rightarrow> bool" where
  "isPercentageRate rate = (rate \<ge> 0)"

definition calculateVatAmount :: "real \<Rightarrow> real \<Rightarrow> real" where
  "calculateVatAmount rate netAmount =
     (if isPercentageRate rate then (netAmount * rate) / 100 else 0)"

text \<open>The three amounts of one item, as the loop body computes them.\<close>

definition itemNet :: "InvoiceItem \<Rightarrow> real" where
  "itemNet item = quantity item * netPrice item"

definition itemVat :: "InvoiceItem \<Rightarrow> real" where
  "itemVat item = calculateVatAmount (vatRate item) (itemNet item)"

definition itemGross :: "InvoiceItem \<Rightarrow> real" where
  "itemGross item = itemNet item + itemVat item"

text \<open>
  The object \<open>vatBreakdown\<close> is a list of entries in insertion order.  One pass of the
  loop body: create the entry of the rate with zeros when it is missing, then add.
\<close>

fun accumulate :: "real \<Rightarrow> real \<Rightarrow> real \<Rightarrow> real \<Rightarrow> (real \<times> VatTotals) list
    \<Rightarrow> (real \<times> VatTotals) list" where
  "accumulate rate n v g [] = [(rate, \<lparr>net = 0 + n, vat = 0 + v, gross = 0 + g\<rparr>)]"
| "accumulate rate n v g ((k, e) # rest) =
     (if k = rate then (k, \<lparr>net = net e + n, vat = vat e + v, gross = gross e + g\<rparr>) # rest
      else (k, e) # accumulate rate n v g rest)"

text \<open>
  \<open>Object.values\<close> and \<open>Object.entries\<close> list the keys that are array indices
  (integers from 0 below \<open>2^32 - 1\<close>) first, ascending, then the others as inserted.
\<close>

definition isArrayIndex :: "real \<Rightarrow> bool" where
  "isArrayIndex r = (0 \<le> r \<and> r < 4294967295 \<and> r = of_int \<lfloor>r\<rfloor>)"

definition ownEntries :: "(real \<times> 'a) list \<Rightarrow> (real \<times> 'a) list" where
  "ownEntries vb =
     sort_key fst (filter (\<lambda>e. isArrayIndex (fst e)) vb)
     @ filter (\<lambda>e. \<not> isArrayIndex (fst e)) vb"

definition calculateInvoice :: "InvoiceData \<Rightarrow> InvoiceCalculations" where
  "calculateInvoice data =
     (let vb = foldl (\<lambda>vb item. accumulate (vatRate item) (itemNet item) (itemVat item)
                        (itemGross item) vb) [] (items data);
          netTotal = foldl (\<lambda>sum v. sum + net v) 0 (map snd (ownEntries vb));
          vatTotal = foldl (\<lambda>sum v. sum + vat v) 0 (map snd (ownEntries vb));
          grossTotal = netTotal + vatTotal
      in \<lparr>netTotal = netTotal, vatTotal = vatTotal, grossTotal = grossTotal,
          vatBreakdown = ownEntries vb\<rparr>)"

section \<open>The note presets\<close>

definition appendNote :: "string \<Rightarrow> InvoiceData \<Rightarrow> InvoiceData" where
  "appendNote note prev =
     (let current = notes' prev in
      if js_includes current note then prev
      else prev\<lparr>notes' :=
             current @ (if length (trim current) > 0 then [CHR 0x0A] else []) @ note\<rparr>)"

section \<open>The form: state, handlers, effects, rate lookup\<close>

record RateStatus =
  loading :: bool
  error :: "string option"

text \<open>
  One run of \<open>fetchRate\<close>: the values its closure captured (\<open>normalizedCurrency\<close>,
  \<open>targetDate\<close>), its local variables, the flag its cleanup sets (the abort signal is
  raised together with it), and the \<open>await\<close> at which it is suspended.
\<close>

datatype Phase = AwaitingFetch | AwaitingJson | Finished

record Lookup =
  lk_currency :: string
  lk_targetDate :: string
  lookupDate :: string
  attempts :: nat
  isCancelled :: bool
  phase :: Phase

text \<open>
  The state of the component: the invoice, the two pieces of local state, for each of
  the two effects the dependencies of its last run, the lookup the registered cleanup
  would cancel, all lookups ever started, the requests sent (lookup, currency, date)
  and the toasts shown.
\<close>

record FormState =
  invoiceData :: InvoiceData
  rateFetchTrigger :: nat
  rateStatus :: RateStatus
  resetDeps :: "(bool \<times> string \<times> string) option"
  fetchDeps :: "(bool \<times> string \<times> nat) option"
  cleanup :: "nat option"
  lookups :: "Lookup list"
  requests :: "(nat \<times> string \<times> string) list"
  toasts :: "string list"

definition normalizedCurrency :: "InvoiceData \<Rightarrow> string" where
  "normalizedCurrency data = toUpperCase (trim (currency data))"

definition isForeignCurrency :: "InvoiceData \<Rightarrow> bool" where
  "isForeignCurrency data =
     (normalizedCurrency data \<noteq> [] \<and> normalizedCurrency data \<noteq> ''PLN'')"

subsection \<open>Handlers\<close>

text \<open>
  A handler returns the new state, or the error an updater throws
  (\<open>getPreviousBusinessDay\<close> on a date beyond the range of \<open>Date\<close>).
\<close>

definition handleCurrencyChange :: "int \<Rightarrow> string \<Rightarrow> FormState \<Rightarrow> js_error + FormState" where
  "handleCurrencyChange today v st =
     (let normalizedValue = toUpperCase (trim v); prev = invoiceData st in
      case getPreviousBusinessDay today (issueDate prev) of
        Inl e \<Rightarrow> Inl e
      | Inr defaultTargetDate \<Rightarrow>
          Inr (st\<lparr>invoiceData :=
                 (if normalizedValue = ''PLN''
                  then prev\<lparr>currency := normalizedValue,
                         exchangeRate := \<lparr>targetDate = [], effectiveDate = [], rateValue = None\<rparr>\<rparr>
                  else prev\<lparr>currency := normalizedValue,
                         exchangeRate :=
                           \<lparr>targetDate = (if targetDate (exchangeRate prev) \<noteq> []
                                          then targetDate (exchangeRate prev) else defaultTargetDate),
                            effectiveDate = [], rateValue = None\<rparr>\<rparr>),
                rateStatus := \<lparr>loading = False, error = None\<rparr>\<rparr>))"

definition handleRateDateChange :: "int \<Rightarrow> string \<Rightarrow> FormState \<Rightarrow> js_error + FormState" where
  "handleRateDateChange today v st =
     (case getPreviousBusinessDay today (issueDate (invoiceData st)) of
        Inl e \<Rightarrow> Inl e
      | Inr maxRateDate \<Rightarrow>
          (let sanitized = (if v \<noteq> [] then (if str_less maxRateDate v then maxRateDate else v) else []);
               prev = invoiceData st in
           Inr (st\<lparr>invoiceData :=
                  prev\<lparr>exchangeRate := (exchangeRate prev)\<lparr>targetDate := sanitized,
                         effectiveDate := [], rateValue := None\<rparr>\<rparr>,
                 rateStatus := (rateStatus st)\<lparr>error := None\<rparr>\<rparr>)))"

definition handleUsePreviousBusinessDay :: "int \<Rightarrow> FormState \<Rightarrow> js_error + FormState" where
  "handleUsePreviousBusinessDay today st =
     (case getPreviousBusinessDay today (issueDate (invoiceData st)) of
        Inl e \<Rightarrow> Inl e
      | Inr previousDay \<Rightarrow>
          (let prev = invoiceData st in
           Inr (st\<lparr>invoiceData :=
                  prev\<lparr>exchangeRate := (exchangeRate prev)\<lparr>targetDate := previousDay,
                         effectiveDate := [], rateValue := None\<rparr>\<rparr>,
                 rateStatus := (rateStatus st)\<lparr>error := None\<rparr>,
                 rateFetchTrigger := rateFetchTrigger st + 1\<rparr>)))"

definition handleRefreshRate :: "int \<Rightarrow> FormState \<Rightarrow> js_error + FormState" where
  "handleRefreshRate today st =
     (let st1 = st\<lparr>rateStatus := (rateStatus st)\<lparr>error := None\<rparr>\<rparr> in
      if targetDate (exchangeRate (invoiceData st)) = [] then
        (case getPreviousBusinessDay today (issueDate (invoiceData st)) of
           Inl e \<Rightarrow> Inl e
         | Inr previousDay \<Rightarrow>
             (let prev = invoiceData st in
              Inr (st1\<lparr>invoiceData :=
                     prev\<lparr>exchangeRate := (exchangeRate prev)\<lparr>targetDate := previousDay,
                            effectiveDate := [], rateValue := None\<rparr>\<rparr>,
                    rateFetchTrigger := rateFetchTrigger st + 1\<rparr>)))
      else Inr (st1\<lparr>rateFetchTrigger := rateFetchTrigger st + 1\<rparr>))"

text \<open>
  \<open>handleIssueDateChange\<close>: the updater sets \<open>shouldRefetch\<close>, read right after it
  (the updater is taken to run at once, as React runs the first update of an event).
\<close>

definition handleIssueDateChange :: "int \<Rightarrow> string \<Rightarrow> FormState \<Rightarrow> js_error + FormState" where
  "handleIssueDateChange today v st =
     (let prev = invoiceData st; nextState = prev\<lparr>issueDate := v\<rparr>;
          prevCurrency = toUpperCase (trim (currency prev)) in
      if prevCurrency \<noteq> [] \<and> prevCurrency \<noteq> ''PLN'' then
        (case getPreviousBusinessDay today v of
           Inl e \<Rightarrow> Inl e
         | Inr newDefault \<Rightarrow>
             (case getPreviousBusinessDay today (issueDate prev) of
                Inl e \<Rightarrow> Inl e
              | Inr previousDefault \<Rightarrow>
                  (let targetWasDefault = (targetDate (exchangeRate prev) = []
                         \<or> targetDate (exchangeRate prev) = previousDefault) in
                   if targetWasDefault \<and> targetDate (exchangeRate prev) \<noteq> newDefault then
                     Inr (st\<lparr>invoiceData :=
                            nextState\<lparr>exchangeRate := (exchangeRate prev)\<lparr>targetDate := newDefault,
                                   effectiveDate := [], rateValue := None\<rparr>\<rparr>,
                           rateStatus := (rateStatus st)\<lparr>error := None\<rparr>,
                           rateFetchTrigger := rateFetchTrigger st + 1\<rparr>)
                   else Inr (st\<lparr>invoiceData := nextState\<rparr>))))
      else Inr (st\<lparr>invoiceData := nextState\<rparr>))"

text \<open>The other inputs of the form write one field each.\<close>

datatype field_edit =
    InvoiceNumber string | SaleDate string | PaymentDeadline string | PaymentMethod string
  | Seller CompanyInfo | Buyer CompanyInfo | Items "InvoiceItem list" | Notes string
  | Logo "string option"

fun applyEdit :: "field_edit \<Rightarrow> InvoiceData \<Rightarrow> InvoiceData" where
  "applyEdit (InvoiceNumber x) prev = prev\<lparr>invoiceNumber := x\<rparr>"
| "applyEdit (SaleDate x) prev = prev\<lparr>saleDate := x\<rparr>"
| "applyEdit (PaymentDeadline x) prev = prev\<lparr>paymentDeadline := x\<rparr>"
| "applyEdit (PaymentMethod x) prev = prev\<lparr>paymentMethod := x\<rparr>"
| "applyEdit (Seller x) prev = prev\<lparr>seller := x\<rparr>"
| "applyEdit (Buyer x) prev = prev\<lparr>buyer := x\<rparr>"
| "applyEdit (Items x) prev = prev\<lparr>items := x\<rparr>"
| "applyEdit (Notes x) prev = prev\<lparr>notes' := x\<rparr>"
| "applyEdit (Logo x) prev = prev\<lparr>logo := x\<rparr>"

subsection \<open>The rate lookup\<close>

text \<open>
  What the rate source can answer.  \<open>fetch\<close> rejects with an error or resolves with a
  status; \<open>response.json()\<close> rejects or resolves with the data, of which the form reads
  \<open>data?.rates?.[0]\<close>: absent (\<open>None\<close>), or an entry with its \<open>effectiveDate\<close> and its
  \<open>mid\<close> (\<open>None\<close> when \<open>mid\<close> is not a number).
\<close>

datatype fetch_result = FetchRejected js_error | FetchResponse nat

datatype nbp_rate = NbpRate string "real option"

datatype json_result = JsonRejected js_error | JsonData "nbp_rate option"

definition fetchFailedMessage :: string where
  "fetchFailedMessage = ''Nie uda'' @ [CHR 0xC5, CHR 0x82] @ ''o si'' @ [CHR 0xC4, CHR 0x99]
     @ '' pobra'' @ [CHR 0xC4, CHR 0x87] @ '' kursu NBP.''"

definition noRateDataMessage :: string where
  "noRateDataMessage = ''Brak danych kursu NBP dla wybranej daty.''"

definition genericErrorMessage :: string where
  "genericErrorMessage = ''B'' @ [CHR 0xC5, CHR 0x82, CHR 0xC4, CHR 0x85]
     @ ''d podczas pobierania kursu NBP.''"

definition exhaustedMessage :: string where
  "exhaustedMessage = ''Brak kursu NBP dla wybranej daty w ostatnich dniach roboczych.''"

text \<open>\<open>error?.message || fallback\<close>.\<close>

definition messageOr :: "js_error \<Rightarrow> string \<Rightarrow> string" where
  "messageOr e fallback = (if err_message e = [] then fallback else err_message e)"

definition clearedRate :: "string \<Rightarrow> ExchangeRateState" where
  "clearedRate d = \<lparr>targetDate = d, effectiveDate = [], rateValue = None\<rparr>"

definition setRate :: "ExchangeRateState \<Rightarrow> FormState \<Rightarrow> FormState" where
  "setRate r st = st\<lparr>invoiceData := (invoiceData st)\<lparr>exchangeRate := r\<rparr>\<rparr>"

definition finish :: "nat \<Rightarrow> Lookup \<Rightarrow> FormState \<Rightarrow> FormState" where
  "finish i lk st = st\<lparr>lookups := (lookups st)[i := lk\<lparr>phase := Finished\<rparr>]\<rparr>"

text \<open>
  The head of the \<open>while\<close> loop, for lookup \<open>i\<close> with local state \<open>lk\<close>: send the next
  request, or leave the loop; \<open>fetched\<close> is false whenever the head is reached.
\<close>

definition loopHead :: "nat \<Rightarrow> Lookup \<Rightarrow> FormState \<Rightarrow> FormState" where
  "loopHead i lk st =
     (if \<not> isCancelled lk \<and> attempts lk < MAX_RATE_LOOKBACK_DAYS then
        st\<lparr>lookups := (lookups st)[i := lk\<lparr>phase := AwaitingFetch\<rparr>],
           requests := requests st @ [(i, lk_currency lk, lookupDate lk)]\<rparr>
      else if \<not> isCancelled lk then
        finish i lk
          ((setRate (clearedRate (lk_targetDate lk)) st)
             \<lparr>rateStatus := \<lparr>loading = False, error = Some exhaustedMessage\<rparr>,
              toasts := toasts st @ [exhaustedMessage]\<rparr>)
      else finish i lk st)"

text \<open>The \<open>catch\<close> block.\<close>

definition catchBlock :: "js_error \<Rightarrow> nat \<Rightarrow> Lookup \<Rightarrow> FormState \<Rightarrow> FormState" where
  "catchBlock e i lk st =
     (if isCancelled lk then finish i lk st
      else if err_name e = ''AbortError'' then finish i lk st
      else finish i lk
          ((setRate (clearedRate (lk_targetDate lk)) st)
             \<lparr>rateStatus := \<lparr>loading = False, error = Some (messageOr e genericErrorMessage)\<rparr>,
              toasts := toasts st @ [messageOr e fetchFailedMessage]\<rparr>))"

text \<open>The code after \<open>await fetch(...)\<close>, run when the request of lookup \<open>i\<close> settles.\<close>

definition onFetchSettled :: "nat \<Rightarrow> fetch_result \<Rightarrow> FormState \<Rightarrow> FormState" where
  "onFetchSettled i r st =
     (if i < length (lookups st) \<and> phase (lookups st ! i) = AwaitingFetch then
        (let lk = lookups st ! i in
         case r of
           FetchRejected e \<Rightarrow> catchBlock e i lk st
         | FetchResponse status \<Rightarrow>
             if status = 404 then
               (case shiftDateString (lookupDate lk) (- 1) of
                  Inl e \<Rightarrow> catchBlock e i lk st
                | Inr d \<Rightarrow> loopHead i (lk\<lparr>lookupDate := d, attempts := attempts lk + 1\<rparr>) st)
             else if \<not> (200 \<le> status \<and> status \<le> 299) then
               catchBlock (Error fetchFailedMessage) i lk st
             else st\<lparr>lookups := (lookups st)[i := lk\<lparr>phase := AwaitingJson\<rparr>]\<rparr>)
      else st)"

text \<open>The code after \<open>await response.json()\<close>.\<close>

definition onJsonSettled :: "nat \<Rightarrow> json_result \<Rightarrow> FormState \<Rightarrow> FormState" where
  "onJsonSettled i r st =
     (if i < length (lookups st) \<and> phase (lookups st ! i) = AwaitingJson then
        (let lk = lookups st ! i in
         case r of
           JsonRejected e \<Rightarrow> catchBlock e i lk st
         | JsonData None \<Rightarrow> catchBlock (Error noRateDataMessage) i lk st
         | JsonData (Some (NbpRate eff None)) \<Rightarrow> catchBlock (Error noRateDataMessage) i lk st
         | JsonData (Some (NbpRate eff (Some mid))) \<Rightarrow>
             if isCancelled lk then finish i lk st
             else finish i lk
                 ((setRate \<lparr>targetDate = lk_targetDate lk, effectiveDate = eff,
                     rateValue = Some mid\<rparr> st)
                    \<lparr>rateStatus := \<lparr>loading = False, error = None\<rparr>\<rparr>))
      else st)"

subsection \<open>Effects and rendering\<close>

text \<open>The effect that resets the exchange rate; it decides on the rendered invoice.\<close>

definition resetEffect :: "int \<Rightarrow> InvoiceData \<Rightarrow> FormState \<Rightarrow> js_error + FormState" where
  "resetEffect today snap st =
     (if \<not> isForeignCurrency snap then
        Inr ((if targetDate (exchangeRate snap) \<noteq> [] \<or> effectiveDate (exchangeRate snap) \<noteq> []
                 \<or> rateValue (exchangeRate snap) \<noteq> None
              then setRate \<lparr>targetDate = [], effectiveDate = [], rateValue = None\<rparr> st else st)
             \<lparr>rateStatus := \<lparr>loading = False, error = None\<rparr>\<rparr>)
      else if targetDate (exchangeRate snap) = [] then
        (case getPreviousBusinessDay today (issueDate snap) of
           Inl e \<Rightarrow> Inl e
         | Inr defaultDate \<Rightarrow>
             Inr (setRate ((exchangeRate (invoiceData st))\<lparr>targetDate := defaultDate\<rparr>) st))
      else Inr st)"

text \<open>The cleanup of the fetch effect: \<open>isCancelled = true; controller.abort()\<close>.\<close>

definition runCleanup :: "FormState \<Rightarrow> FormState" where
  "runCleanup st =
     (case cleanup st of
        None \<Rightarrow> st
      | Some i \<Rightarrow> st\<lparr>lookups := (lookups st)[i := (lookups st ! i)\<lparr>isCancelled := True\<rparr>],
                     cleanup := None\<rparr>)"

text \<open>
  The fetch effect: start a lookup, which runs up to its first \<open>await\<close>, and register
  its cleanup.
\<close>

definition fetchEffect :: "InvoiceData \<Rightarrow> FormState \<Rightarrow> FormState" where
  "fetchEffect snap st =
     (if \<not> isForeignCurrency snap then st
      else if targetDate (exchangeRate snap) = [] then st
      else
        (let i = length (lookups st);
             lk = \<lparr>lk_currency = normalizedCurrency snap,
                   lk_targetDate = targetDate (exchangeRate snap),
                   lookupDate = targetDate (exchangeRate snap), attempts = 0,
                   isCancelled = False, phase = AwaitingFetch\<rparr>
         in loopHead i lk
              (st\<lparr>lookups := lookups st @ [lk],
                  rateStatus := \<lparr>loading = True, error = None\<rparr>,
                  cleanup := Some i\<rparr>)))"

definition resetDepsOf :: "FormState \<Rightarrow> bool \<times> string \<times> string" where
  "resetDepsOf st = (isForeignCurrency (invoiceData st),
     targetDate (exchangeRate (invoiceData st)), issueDate (invoiceData st))"

definition fetchDepsOf :: "FormState \<Rightarrow> bool \<times> string \<times> nat" where
  "fetchDepsOf st = (isForeignCurrency (invoiceData st),
     targetDate (exchangeRate (invoiceData st)), rateFetchTrigger st)"

text \<open>
  One render and commit: the body computes \<open>maxRateDate\<close> (and throws with it); the
  cleanup of an effect whose dependencies changed runs, then the effects whose
  dependencies changed, in order, each deciding on the rendered invoice.
\<close>

definition commit :: "int \<Rightarrow> FormState \<Rightarrow> js_error + FormState" where
  "commit today st =
     (let snap = invoiceData st in
      case getPreviousBusinessDay today (issueDate snap) of
        Inl e \<Rightarrow> Inl e
      | Inr maxRateDate \<Rightarrow>
          (let st1 = (if fetchDeps st = Some (fetchDepsOf st) then st else runCleanup st) in
           case (if resetDeps st = Some (resetDepsOf st) then Inr st1
                 else resetEffect today snap st1) of
             Inl e \<Rightarrow> Inl e
           | Inr st2 \<Rightarrow>
               Inr ((if fetchDeps st = Some (fetchDepsOf st) then st2 else fetchEffect snap st2)
                    \<lparr>resetDeps := Some (resetDepsOf st), fetchDeps := Some (fetchDepsOf st)\<rparr>)))"

text \<open>
  The state updates of the effects cause one more render; after it nothing changes
  (\<open>commit_render\<close> below).
\<close>

definition render :: "int \<Rightarrow> FormState \<Rightarrow> js_error + FormState" where
  "render today st = (case commit today st of Inl e \<Rightarrow> Inl e | Inr st1 \<Rightarrow> commit today st1)"

subsection \<open>Events\<close>

datatype event =
    CurrencyChange string | RateDateChange string | UsePreviousBusinessDay | RefreshRate
  | IssueDateChange string | AppendNote string | Edit field_edit
  | FetchSettled nat fetch_result | JsonSettled nat json_result

text \<open>
  The rate date input and the two buttons are rendered for a foreign currency only, and
  the buttons are disabled while a rate is loading.
\<close>

fun enabled :: "event \<Rightarrow> FormState \<Rightarrow> bool" where
  "enabled (RateDateChange v) st = isForeignCurrency (invoiceData st)"
| "enabled UsePreviousBusinessDay st =
     (isForeignCurrency (invoiceData st) \<and> \<not> loading (rateStatus st))"
| "enabled RefreshRate st = (isForeignCurrency (invoiceData st) \<and> \<not> loading (rateStatus st))"
| "enabled e st = True"

fun handle :: "int \<Rightarrow> event \<Rightarrow> FormState \<Rightarrow> js_error + FormState" where
  "handle today (CurrencyChange v) st = handleCurrencyChange today v st"
| "handle today (RateDateChange v) st = handleRateDateChange today v st"
| "handle today UsePreviousBusinessDay st = handleUsePreviousBusinessDay today st"
| "handle today RefreshRate st = handleRefreshRate today st"
| "handle today (IssueDateChange v) st = handleIssueDateChange today v st"
| "handle today (AppendNote n) st = Inr (st\<lparr>invoiceData := appendNote n (invoiceData st)\<rparr>)"
| "handle today (Edit f) st = Inr (st\<lparr>invoiceData := applyEdit f (invoiceData st)\<rparr>)"
| "handle today (FetchSettled i r) st = Inr (onFetchSettled i r st)"
| "handle today (JsonSettled i r) st = Inr (onJsonSettled i r st)"

text \<open>One event: its handler, then the renders it causes.\<close>

definition step :: "int \<Rightarrow> event \<Rightarrow> FormState \<Rightarrow> js_error + FormState" where
  "step today e st =
     (if enabled e st then (case handle today e st of Inl err \<Rightarrow> Inl err | Inr st1 \<Rightarrow> render today st1)
      else Inr st)"

fun run :: "int \<Rightarrow> event list \<Rightarrow> FormState \<Rightarrow> js_error + FormState" where
  "run today [] st = Inr st"
| "run today (e # es) st = (case step today e st of Inl err \<Rightarrow> Inl err | Inr st1 \<Rightarrow> run today es st1)"

text \<open>Mounting the form on an invoice: the first render, with every effect run.\<close>

definition mount :: "int \<Rightarrow> InvoiceData \<Rightarrow> js_error + FormState" where
  "mount today data =
     render today \<lparr>invoiceData = data, rateFetchTrigger = 0,
       rateStatus = \<lparr>loading = False, error = None\<rparr>, resetDeps = None, fetchDeps = None,
       cleanup = None, lookups = [], requests = [], toasts = []\<rparr>"

inductive reachable :: "FormState \<Rightarrow> bool" where
  mounted: "mount today data = Inr st \<Longrightarrow> reachable st"
| stepped: "reachable st \<Longrightarrow> step today e st = Inr st' \<Longrightarrow> reachable st'"

subsection \<open>Rendered states and lookups in flight\<close>

text \<open>
  A state is rendered when its body renders and both effects have run for its present
  dependencies: rendering it again changes nothing.
\<close>

definition rendered :: "int \<Rightarrow> FormState \<Rightarrow> bool" where
  "rendered today st =
     ((case getPreviousBusinessDay today (issueDate (invoiceData st)) of
         Inl e \<Rightarrow> False | Inr m \<Rightarrow> True)
      \<and> resetDeps st = Some (resetDepsOf st) \<and> fetchDeps st = Some (fetchDepsOf st))"

text \<open>
  A lookup for currency \<open>cur\<close> and target date \<open>d\<close> that waits for the answer to its
  request for \<open>ld\<close> after \<open>a\<close> dates without data.
\<close>

definition pendingLookup :: "string \<Rightarrow> string \<Rightarrow> string \<Rightarrow> nat \<Rightarrow> Lookup" where
  "pendingLookup cur d ld a = \<lparr>lk_currency = cur, lk_targetDate = d, lookupDate = ld,
     attempts = a, isCancelled = False, phase = AwaitingFetch\<rparr>"

text \<open>Lookup \<open>i\<close> is \<open>lk\<close>, and it is the lookup for the target date of the rendered invoice.\<close>

definition inFlight :: "int \<Rightarrow> FormState \<Rightarrow> nat \<Rightarrow> Lookup \<Rightarrow> bool" where
  "inFlight today st i lk =
     (rendered today st \<and> i < length (lookups st) \<and> lookups st ! i = lk
      \<and> targetDate (exchangeRate (invoiceData st)) = lk_targetDate lk)"

subsection \<open>The invariant of the exchange rate\<close>

text \<open>The rate has a value exactly when it has an effective date.\<close>

definition rateConsistent :: "ExchangeRateState \<Rightarrow> bool" where
  "rateConsistent r = ((rateValue r \<noteq> None) = (effectiveDate r \<noteq> []))"

text \<open>A response with a rate is well-formed when its effective date is not empty.\<close>

fun wellFormed :: "event \<Rightarrow> bool" where
  "wellFormed (JsonSettled i (JsonData (Some (NbpRate eff (Some mid))))) = (eff \<noteq> [])"
| "wellFormed e = True"

subsection \<open>Lookups that no longer count\<close>

text \<open>No lookup is pending: none is registered for cleanup, and each is cancelled or done.\<close>

definition settled :: "FormState \<Rightarrow> bool" where
  "settled st =
     (cleanup st = None \<and> list_all (\<lambda>lk. isCancelled lk \<or> phase lk = Finished) (lookups st))"

text \<open>
  Every lookup but the one registered for cleanup is cancelled or done, and a lookup is
  registered only by a run of the fetch effect for a foreign currency.
\<close>

definition lookupsInv :: "FormState \<Rightarrow> bool" where
  "lookupsInv st =
     ((\<forall>j < length (lookups st). cleanup st \<noteq> Some j
          \<longrightarrow> isCancelled (lookups st ! j) \<or> phase (lookups st ! j) = Finished)
      \<and> (\<forall>i. cleanup st = Some i
          \<longrightarrow> i < length (lookups st) \<and> (\<exists>td n. fetchDeps st = Some (True, td, n))))"

text \<open>
  What holds between a handler and the render it causes, after the first commit of that
  render, and in every rendered state.
\<close>

definition beforeRender :: "FormState \<Rightarrow> bool" where
  "beforeRender st =
     (lookupsInv st
      \<and> (\<not> isForeignCurrency (invoiceData st) \<and> resetDeps st = Some (resetDepsOf st)
          \<longrightarrow> exchangeRate (invoiceData st) = emptyRate))"

definition midRender :: "FormState \<Rightarrow> bool" where
  "midRender st =
     (lookupsInv st
      \<and> (\<not> isForeignCurrency (invoiceData st) \<longrightarrow> exchangeRate (invoiceData st) = emptyRate)
      \<and> (isForeignCurrency (invoiceData st) \<and> targetDate (exchangeRate (invoiceData st)) = []
          \<longrightarrow> resetDeps st = Some (resetDepsOf st))
      \<and> (resetDeps st = Some (resetDepsOf st) \<longrightarrow> fetchDeps st = Some (fetchDepsOf st)))"

definition afterRender :: "FormState \<Rightarrow> bool" where
  "afterRender st =
     (lookupsInv st
      \<and> resetDeps st = Some (resetDepsOf st) \<and> fetchDeps st = Some (fetchDepsOf st)
      \<and> (\<not> isForeignCurrency (invoiceData st) \<longrightarrow> exchangeRate (invoiceData st) = emptyRate))"

text \<open>
  A settled request or body changes lookup \<open>i\<close> only; it keeps the flags \<open>isCancelled\<close>,
  the finished lookups, the registered cleanup and the stored dependencies.
\<close>

definition sameLookups :: "FormState \<Rightarrow> FormState \<Rightarrow> bool" where
  "sameLookups st st' =
     (length (lookups st') = length (lookups st) \<and> cleanup st' = cleanup st
      \<and> fetchDeps st' = fetchDeps st \<and> resetDeps st' = resetDeps st
      \<and> rateFetchTrigger st' = rateFetchTrigger st
      \<and> isForeignCurrency (invoiceData st') = isForeignCurrency (invoiceData st)
      \<and> issueDate (invoiceData st') = issueDate (invoiceData st)
      \<and> currency (invoiceData st') = currency (invoiceData st)
      \<and> (\<forall>j < length (lookups st).
            isCancelled (lookups st' ! j) = isCancelled (lookups st ! j)
            \<and> (phase (lookups st ! j) = Finished \<longrightarrow> phase (lookups st' ! j) = Finished)))"






section \<open>Sample data\<close>

definition sampleCompany :: CompanyInfo where
  "sampleCompany = \<lparr>name = ''ACME'', address = ''Street 1'', postalCode = ''00-000'',
     city = ''Warszawa'', nip = ''1234567890'', bankAccount = None\<rparr>"

definition sampleItem :: "real \<Rightarrow> real \<Rightarrow> real \<Rightarrow> InvoiceItem" where
  "sampleItem q p r = \<lparr>item_id = ''1'', item_name = ''service'', quantity = q,
     item_unit = ''szt.'', netPrice = p, vatRate = r\<rparr>"

definition sampleInvoice :: InvoiceData where
  "sampleInvoice = \<lparr>invoiceNumber = ''FV/2024/01/001'', issueDate = ''2024-01-16'',
     saleDate = ''2024-01-16'', paymentDeadline = ''2024-01-30'', paymentMethod = ''Przelew'',
     currency = ''PLN'', seller = sampleCompany, buyer = sampleCompany,
     items = [sampleItem 2 100 23, sampleItem 1 50 (- 1)], notes' = ''abc'', logo = None,
     exchangeRate = emptyRate\<rparr>"

definition sampleForeign :: InvoiceData where
  "sampleForeign = sampleInvoice\<lparr>currency := ''EUR''\<rparr>"

text \<open>
  The form mounted on \<open>sampleForeign\<close> on 2024-01-16 (day 19738): the rate date is the
  day before, and the lookup for it has sent its first request.
\<close>

definition sampleStarted :: FormState where
  "sampleStarted = \<lparr>invoiceData = sampleForeign\<lparr>exchangeRate := clearedRate ''2024-01-15''\<rparr>,
     rateFetchTrigger = 0, rateStatus = \<lparr>loading = True, error = None\<rparr>,
     resetDeps = Some (True, ''2024-01-15'', ''2024-01-16''),
     fetchDeps = Some (True, ''2024-01-15'', 0), cleanup = Some 0,
     lookups = [pendingLookup ''EUR'' ''2024-01-15'' ''2024-01-15'' 0],
     requests = [(0, ''EUR'', ''2024-01-15'')], toasts = []\<rparr>"

text \<open>The same form after the user chose 2024-01-10 as the rate date.\<close>

definition sampleOverridden :: FormState where
  "sampleOverridden = \<lparr>invoiceData = sampleForeign\<lparr>exchangeRate := clearedRate ''2024-01-10''\<rparr>,
     rateFetchTrigger = 0, rateStatus = \<lparr>loading = True, error = None\<rparr>,
     resetDeps = Some (True, ''2024-01-10'', ''2024-01-16''),
     fetchDeps = Some (True, ''2024-01-10'', 0), cleanup = Some 1,
     lookups = [(pendingLookup ''EUR'' ''2024-01-15'' ''2024-01-15'' 0)\<lparr>isCancelled := True\<rparr>,
                pendingLookup ''EUR'' ''2024-01-10'' ''2024-01-10'' 0],
     requests = [(0, ''EUR'', ''2024-01-15''), (1, ''EUR'', ''2024-01-10'')], toasts = []\<rparr>"


text \<open>
  \<open>sampleStarted\<close> after the source answered its request with status 200: the lookup
  reads the body.  Then the state after a body whose rate has \<open>mid\<close> 4.5 and the
  effective date \<open>eff\<close>.
\<close>

definition sampleReading :: FormState where
  "sampleReading = sampleStarted\<lparr>lookups :=
     [(pendingLookup ''EUR'' ''2024-01-15'' ''2024-01-15'' 0)\<lparr>phase := AwaitingJson\<rparr>]\<rparr>"

definition sampleResolved :: "string \<Rightarrow> FormState" where
  "sampleResolved eff = sampleStarted\<lparr>
     invoiceData := sampleForeign\<lparr>exchangeRate :=
       \<lparr>targetDate = ''2024-01-15'', effectiveDate = eff, rateValue = Some (9 / 2)\<rparr>\<rparr>,
     rateStatus := \<lparr>loading = False, error = None\<rparr>,
     lookups := [(pendingLookup ''EUR'' ''2024-01-15'' ''2024-01-15'' 0)\<lparr>phase := Finished\<rparr>]\<rparr>"

text \<open>
  \<open>sampleStarted\<close> after the user switched the currency to USD while the lookup for EUR
  was in flight, and then after the answer of that lookup arrived.
\<close>

definition sampleSwitched :: FormState where
  "sampleSwitched = sampleStarted\<lparr>
     invoiceData := sampleForeign\<lparr>currency := ''USD'',
       exchangeRate := clearedRate ''2024-01-15''\<rparr>,
     rateStatus := \<lparr>loading = False, error = None\<rparr>\<rparr>"

definition sampleStale :: FormState where
  "sampleStale = sampleSwitched\<lparr>
     invoiceData := sampleForeign\<lparr>currency := ''USD'', exchangeRate :=
       \<lparr>targetDate = ''2024-01-15'', effectiveDate = ''2024-01-15'', rateValue = Some (9 / 2)\<rparr>\<rparr>,
     lookups := [(pendingLookup ''EUR'' ''2024-01-15'' ''2024-01-15'' 0)\<lparr>phase := Finished\<rparr>]\<rparr>"

section \<open>Verification\<close>

subsection \<open>Facts about the calculator\<close>

lemma foldl_plus_sum_list:
  "foldl (\<lambda>sum v. sum + f v) a xs = a + sum_list (map f xs)" for a :: real
  by (induction xs arbitrary: a) simp_all

lemma sum_list_insort_key:
  "sum_list (map f (insort_key k x xs)) = f x + sum_list (map f xs)" for f :: "'a \<Rightarrow> real"
  by (induction xs) simp_all

lemma sum_list_sort_key:
  "sum_list (map f (sort_key k xs)) = sum_list (map f xs)" for f :: "'a \<Rightarrow> real"
  by (induction xs) (simp_all add: sum_list_insort_key)

lemma sum_list_filter_split:
  "sum_list (map f (filter P xs)) + sum_list (map f (filter (\<lambda>x. \<not> P x) xs))
     = sum_list (map f xs)" for f :: "'a \<Rightarrow> real"
  by (induction xs) simp_all

lemma sum_list_ownEntries:
  "sum_list (map f (ownEntries vb)) = sum_list (map f vb)" for f :: "real \<times> 'a \<Rightarrow> real"
  by (simp add: ownEntries_def sum_list_sort_key sum_list_filter_split)

lemma sum_accumulate:
  "sum_list (map (\<lambda>e. net (snd e)) (accumulate r n v g vb))
     = sum_list (map (\<lambda>e. net (snd e)) vb) + n"
  "sum_list (map (\<lambda>e. vat (snd e)) (accumulate r n v g vb))
     = sum_list (map (\<lambda>e. vat (snd e)) vb) + v"
  by (induction r n v g vb rule: accumulate.induct) simp_all

lemma sum_breakdown:
  "sum_list (map (\<lambda>e. net (snd e))
      (foldl (\<lambda>vb item. accumulate (vatRate item) (itemNet item) (itemVat item)
                (itemGross item) vb) acc its))
     = sum_list (map (\<lambda>e. net (snd e)) acc) + sum_list (map itemNet its)"
  "sum_list (map (\<lambda>e. vat (snd e))
      (foldl (\<lambda>vb item. accumulate (vatRate item) (itemNet item) (itemVat item)
                (itemGross item) vb) acc its))
     = sum_list (map (\<lambda>e. vat (snd e)) acc) + sum_list (map itemVat its)"
  by (induction its arbitrary: acc) (simp_all add: sum_accumulate)

lemma netTotal_sum: "netTotal (calculateInvoice d) = sum_list (map itemNet (items d))"
proof -
  define vb where "vb = foldl (\<lambda>vb item. accumulate (vatRate item) (itemNet item)
      (itemVat item) (itemGross item) vb) [] (items d)"
  have "netTotal (calculateInvoice d) = sum_list (map (\<lambda>e. net (snd e)) (ownEntries vb))"
    by (simp add: calculateInvoice_def Let_def foldl_plus_sum_list comp_def vb_def)
  also have "\<dots> = sum_list (map (\<lambda>e. net (snd e)) vb)"
    by (rule sum_list_ownEntries)
  also have "\<dots> = sum_list (map itemNet (items d))"
    unfolding vb_def by (simp only: sum_breakdown) simp
  finally show ?thesis .
qed

lemma vatTotal_sum: "vatTotal (calculateInvoice d) = sum_list (map itemVat (items d))"
proof -
  define vb where "vb = foldl (\<lambda>vb item. accumulate (vatRate item) (itemNet item)
      (itemVat item) (itemGross item) vb) [] (items d)"
  have "vatTotal (calculateInvoice d) = sum_list (map (\<lambda>e. vat (snd e)) (ownEntries vb))"
    by (simp add: calculateInvoice_def Let_def foldl_plus_sum_list comp_def vb_def)
  also have "\<dots> = sum_list (map (\<lambda>e. vat (snd e)) vb)"
    by (rule sum_list_ownEntries)
  also have "\<dots> = sum_list (map itemVat (items d))"
    unfolding vb_def by (simp only: sum_breakdown) simp
  finally show ?thesis .
qed

lemma grossTotal_sum: "grossTotal (calculateInvoice d) = sum_list (map itemGross (items d))"
proof -
  have "grossTotal (calculateInvoice d)
      = netTotal (calculateInvoice d) + vatTotal (calculateInvoice d)"
    by (simp add: calculateInvoice_def Let_def)
  also have "\<dots> = sum_list (map itemNet (items d)) + sum_list (map itemVat (items d))"
    by (simp only: netTotal_sum vatTotal_sum)
  also have "\<dots> = sum_list (map itemGross (items d))"
    by (induction "items d") (simp_all add: itemGross_def sum_list_addf)
  finally show ?thesis .
qed

text \<open>
  C8.  For an item with quantity \<open>q\<close>, unit net price \<open>p\<close> and rate code \<open>r\<close>: the net
  amount is \<open>q * p\<close>, the VAT amount is \<open>net * r / 100\<close> for \<open>r \<ge> 0\<close> and \<open>0\<close> for a
  negative (sentinel) code, the gross amount is their sum; the three totals of
  \<open>calculateInvoice\<close> are the sums of these amounts over all items, and an invoice
  without items has totals zero.
\<close>

theorem calculator_totals:
  "itemNet item = quantity item * netPrice item
   \<and> (vatRate item \<ge> 0 \<longrightarrow> itemVat item = itemNet item * vatRate item / 100)
   \<and> (vatRate item < 0 \<longrightarrow> itemVat item = 0)
   \<and> itemGross item = itemNet item + itemVat item
   \<and> netTotal (calculateInvoice d) = (\<Sum>i\<leftarrow>items d. itemNet i)
   \<and> vatTotal (calculateInvoice d) = (\<Sum>i\<leftarrow>items d. itemVat i)
   \<and> grossTotal (calculateInvoice d) = (\<Sum>i\<leftarrow>items d. itemGross i)
   \<and> (items d = [] \<longrightarrow> netTotal (calculateInvoice d) = 0
        \<and> vatTotal (calculateInvoice d) = 0 \<and> grossTotal (calculateInvoice d) = 0)"
proof (intro conjI impI)
  show "netTotal (calculateInvoice d) = (\<Sum>i\<leftarrow>items d. itemNet i)" by (rule netTotal_sum)
  show "vatTotal (calculateInvoice d) = (\<Sum>i\<leftarrow>items d. itemVat i)" by (rule vatTotal_sum)
  show "grossTotal (calculateInvoice d) = (\<Sum>i\<leftarrow>items d. itemGross i)"
    by (rule grossTotal_sum)
qed (simp_all add: netTotal_sum vatTotal_sum grossTotal_sum itemNet_def itemVat_def
      itemGross_def calculateVatAmount_def isPercentageRate_def)

theorem calculator_totals_witness:
  "(23::real) \<ge> 0 \<and> itemVat (sampleItem 2 100 23) = 46
   \<and> (- 1::real) < 0 \<and> itemVat (sampleItem 1 50 (- 1)) = 0
   \<and> netTotal (calculateInvoice sampleInvoice) = 250
   \<and> vatTotal (calculateInvoice sampleInvoice) = 46
   \<and> grossTotal (calculateInvoice sampleInvoice) = 296
   \<and> items (sampleInvoice\<lparr>items := []\<rparr>) = []
   \<and> grossTotal (calculateInvoice (sampleInvoice\<lparr>items := []\<rparr>)) = 0"
  using calculator_totals [of "sampleItem 2 100 23" sampleInvoice]
    calculator_totals [of "sampleItem 1 50 (- 1)" "sampleInvoice\<lparr>items := []\<rparr>"]
  by (simp add: sampleInvoice_def sampleItem_def itemNet_def itemVat_def itemGross_def
      calculateVatAmount_def isPercentageRate_def)

subsection \<open>Facts about includes\<close>

lemma startsWith_append: "startsWith (t @ r) t"
  by (induction t) simp_all

lemma js_includes_Nil: "js_includes s []"
  by (cases s) simp_all

lemma js_includes_self_append: "js_includes (t @ r) t"
proof (cases t)
  case Nil
  then show ?thesis by (simp add: js_includes_Nil)
next
  case (Cons c cs)
  then show ?thesis using startsWith_append [of t r] by simp
qed

lemma js_includes_prepend: "js_includes s t \<Longrightarrow> js_includes (a @ s) t"
  by (induction a) simp_all

lemma js_includes_suffix: "js_includes (a @ t) t"
  using js_includes_prepend [OF js_includes_self_append [of t "[]"]] by simp

text \<open>
  C10.  \<open>appendNote n\<close> leaves an invoice whose notes already contain \<open>n\<close> unchanged, and
  appending the same note twice gives the same invoice as appending it once.
\<close>

theorem appendNote_idempotent:
  "(js_includes (notes' s) n \<longrightarrow> appendNote n s = s)
   \<and> appendNote n (appendNote n s) = appendNote n s"
proof -
  have "js_includes (notes' (appendNote n s)) n"
  proof (cases "js_includes (notes' s) n")
    case True
    then show ?thesis by (simp add: appendNote_def)
  next
    case False
    then show ?thesis
      using js_includes_suffix [of "notes' s @ (if length (trim (notes' s)) > 0 then [CHR 0x0A] else [])" n]
      by (simp add: appendNote_def Let_def)
  qed
  then have "appendNote n (appendNote n s) = appendNote n s"
    by (simp add: appendNote_def [of n "appendNote n s"])
  moreover have "js_includes (notes' s) n \<longrightarrow> appendNote n s = s"
    by (simp add: appendNote_def)
  ultimately show ?thesis by simp
qed

theorem appendNote_idempotent_witness:
  "js_includes (notes' sampleInvoice) ''bc'' \<and> appendNote ''bc'' sampleInvoice = sampleInvoice
   \<and> notes' (appendNote ''xy'' (appendNote ''xy'' sampleInvoice)) = ''abc'' @ [CHR 0x0A] @ ''xy''"
  using appendNote_idempotent [of sampleInvoice "''bc''"]
    appendNote_idempotent [of sampleInvoice "''xy''"]
  by (simp add: sampleInvoice_def appendNote_def trim_def isWhiteSpace_def)

subsection \<open>Facts about the date strings\<close>

lemma digitChar_props:
  assumes "n < 10"
  shows "isDigit (digitChar n)" "digitVal (digitChar n) = int n"
  using assms by (auto simp: isDigit_def digitVal_def digitChar_def)

lemma decimal_digits: "list_all isDigit (decimal n)"
proof (induction n rule: decimal.induct)
  case (1 n)
  then show ?case by (subst decimal.simps) (simp add: digitChar_props)
qed

lemma foldl_digits_append:
  "foldl (\<lambda>a c. 10 * a + digitVal c) a (xs @ [c]) = 10 * foldl (\<lambda>a c. 10 * a + digitVal c) a xs + digitVal c"
  by simp

lemma decimal_value: "foldl (\<lambda>a c. 10 * a + digitVal c) 0 (decimal n) = int n"
proof (induction n rule: decimal.induct)
  case (1 n)
  show ?case
  proof (cases "n < 10")
    case True
    then show ?thesis by (subst decimal.simps) (simp add: digitChar_props)
  next
    case False
    have "int n = 10 * int (n div 10) + int (n mod 10)" by presburger
    with False 1 show ?thesis by (subst decimal.simps) (simp add: digitChar_props)
  qed
qed

lemma foldl_digits_zeros:
  "foldl (\<lambda>a c. 10 * a + digitVal c) 0 (replicate k (CHR ''0'') @ xs)
     = foldl (\<lambda>a c. 10 * a + digitVal c) 0 xs"
  by (induction k) (simp_all add: digitVal_def)

lemma padStart_digits: "list_all isDigit (padStart w n)"
proof -
  have "list_all isDigit (replicate k (CHR ''0''))" for k
    by (induction k) (simp_all add: isDigit_def)
  then show ?thesis by (simp add: padStart_def decimal_digits)
qed

lemma js_Number_padStart: "js_Number (padStart w n) = Some (int n)"
proof -
  have "foldl (\<lambda>a c. 10 * a + digitVal c) 0 (padStart w n) = int n"
    unfolding padStart_def by (simp only: foldl_digits_zeros decimal_value)
  with padStart_digits [of w n] show ?thesis by (simp add: js_Number_def)
qed

lemma isDigit_not_dash: "list_all isDigit s \<Longrightarrow> CHR ''-'' \<notin> set s"
  by (induction s) (auto simp: isDigit_def)

lemma js_split_no_sep: "sep \<notin> set s \<Longrightarrow> js_split sep s = [s]"
  by (induction s) auto

lemma js_split_sep:
  "sep \<notin> set a \<Longrightarrow> js_split sep (a @ sep # r) = a # js_split sep r"
  by (induction a) auto

lemma js_split_isoparts:
  assumes "list_all isDigit a" "list_all isDigit b" "list_all isDigit c"
  shows "js_split (CHR ''-'') (a @ ''-'' @ b @ ''-'' @ c) = [a, b, c]"
  using assms by (simp add: js_split_sep js_split_no_sep isDigit_not_dash)

lemma DayFromYear_100: "DayFromYear 100 = - 683003" 
  by (simp add: DayFromYear_def)

lemma DayFromYear_10000: "DayFromYear 10000 = 2932897"
  by (simp add: DayFromYear_def)

lemma YearFromTime_range:
  assumes "DayFromYear lo \<le> t" "t < DayFromYear hi"
  shows "lo \<le> YearFromTime t" "YearFromTime t < hi"
proof -
  show "lo \<le> YearFromTime t"
  proof (rule ccontr)
    assume "\<not> lo \<le> YearFromTime t"
    then have "DayFromYear (YearFromTime t + 1) \<le> DayFromYear lo"
      by (intro DayFromYear_mono) simp
    with YearFromTime_correct(2) [of t] assms show False by simp
  qed
  show "YearFromTime t < hi"
  proof (rule ccontr)
    assume "\<not> YearFromTime t < hi"
    then have "DayFromYear hi \<le> DayFromYear (YearFromTime t)"
      by (intro DayFromYear_mono) simp
    with YearFromTime_correct(1) [of t] assms show False by simp
  qed
qed

text \<open>The dates of the years 100 to 9999: the four-digit dates that parse back.\<close>

lemma Date_UTC_components:
  assumes "DayFromYear 100 \<le> t" "t < DayFromYear 10000"
  shows "Date_UTC (YearFromTime t) (MonthFromTime t) (DateFromTime t) = UTCDay t"
proof -
  have y: "100 \<le> YearFromTime t" using YearFromTime_range(1) [OF assms] .
  have "MakeDay (YearFromTime t) (MonthFromTime t) (DateFromTime t) = t"
    using MakeDay_components [of t 0] by simp
  with y assms show ?thesis
    by (simp add: Date_UTC_def TimeClip_def DayFromYear_100 DayFromYear_10000)
qed

lemma parseISODate_isoDate:
  assumes "DayFromYear 100 \<le> t" "t < DayFromYear 10000"
  shows "parseISODate (isoDate t) = Some (UTCDay t)"
proof -
  have y: "100 \<le> YearFromTime t" "YearFromTime t < 10000"
    using YearFromTime_range [OF assms] by simp_all
  define ys where "ys = padStart 4 (nat (YearFromTime t))"
  define ms where "ms = padStart 2 (nat (MonthFromTime t + 1))"
  define ds where "ds = padStart 2 (nat (DateFromTime t))"
  have iso: "isoDate t = ys @ ''-'' @ ms @ ''-'' @ ds"
    using y by (simp add: isoDate_def ys_def ms_def ds_def)
  have ne: "isoDate t \<noteq> []" by (simp add: iso)
  have sp: "js_split (CHR ''-'') (isoDate t) = [ys, ms, ds]"
    unfolding iso by (rule js_split_isoparts) (simp_all add: ys_def ms_def ds_def padStart_digits)
  have n: "js_Number ys = Some (YearFromTime t)" "js_Number ms = Some (MonthFromTime t + 1)"
    "js_Number ds = Some (DateFromTime t)"
    using y MonthFromTime_bounds [of t] DateFromTime_bounds [of t]
    by (simp_all add: ys_def ms_def ds_def js_Number_padStart)
  show ?thesis
    using ne by (simp add: parseISODate_def sp n Date_UTC_components [OF assms])
qed

lemma TimeClip_in_range:
  "- 100000000 \<le> d \<Longrightarrow> d \<le> 100000000 \<Longrightarrow> TimeClip d = UTCDay d"
  by (auto simp: TimeClip_def)

lemma skipWeekend_UTCDay:
  assumes "- 99999990 \<le> t" "t \<le> 100000000"
  shows "skipWeekend (UTCDay t)
     = UTCDay (t - (if WeekDay t = 0 then 2 else if WeekDay t = 6 then 1 else 0))"
proof -
  consider (sun) "WeekDay t = 0" | (sat) "WeekDay t = 6" | (wk) "WeekDay t \<noteq> 0" "WeekDay t \<noteq> 6"
    by blast
  then show ?thesis
  proof cases
    case sun
    then have w1: "WeekDay (t - 1) = 6" and w2: "WeekDay (t - 2) \<noteq> 0" "WeekDay (t - 2) \<noteq> 6"
      by (simp_all add: WeekDay_minus)
    have "skipWeekend (UTCDay t) = skipWeekend (UTCDay (t - 1))"
      using sun assms by (subst skipWeekend.simps) (simp add: addUTCDate_UTCDay TimeClip_in_range)
    also have "\<dots> = skipWeekend (UTCDay (t - 2))"
      using w1 assms by (subst skipWeekend.simps) (simp add: addUTCDate_UTCDay TimeClip_in_range)
    also have "\<dots> = UTCDay (t - 2)" using w2 by (subst skipWeekend.simps) simp
    finally show ?thesis using sun by simp
  next
    case sat
    then have w1: "WeekDay (t - 1) \<noteq> 0" "WeekDay (t - 1) \<noteq> 6"
      by (simp_all add: WeekDay_minus)
    have "skipWeekend (UTCDay t) = skipWeekend (UTCDay (t - 1))"
      using sat assms by (subst skipWeekend.simps) (simp add: addUTCDate_UTCDay TimeClip_in_range)
    also have "\<dots> = UTCDay (t - 1)" using w1 by (subst skipWeekend.simps) simp
    finally show ?thesis using sat by simp
  next
    case wk
    then show ?thesis by (subst skipWeekend.simps) simp
  qed
qed


lemma previous_skipWeekend:
  assumes "- 99999980 \<le> t" "t \<le> 100000000"
  shows "skipWeekend (addUTCDate (UTCDay t) (- 1)) = UTCDay (t - stepsBack t)"
proof -
  have "WeekDay (t - 1) = 0 \<longleftrightarrow> WeekDay t = 1" "WeekDay (t - 1) = 6 \<longleftrightarrow> WeekDay t = 0"
    using WeekDay_range [of t] by (auto simp: WeekDay_minus)
  moreover have "addUTCDate (UTCDay t) (- 1) = UTCDay (t - 1)"
    using assms by (simp add: addUTCDate_UTCDay TimeClip_in_range)
  ultimately show ?thesis
    using assms skipWeekend_UTCDay [of "t - 1"] by (simp add: stepsBack_def)
qed

lemma getPreviousBusinessDay_isoDate:
  assumes "DayFromYear 100 \<le> t" "t < DayFromYear 10000"
  shows "getPreviousBusinessDay today (isoDate t) = Inr (isoDate (t - stepsBack t))"
  using assms previous_skipWeekend [of t]
  by (simp add: getPreviousBusinessDay_def parseISODate_isoDate Date_UTC_components
      DayFromYear_100 DayFromYear_10000)



lemma isoDate_in_year:
  assumes "DayFromYear y \<le> t" "t < DayFromYear (y + 1)" "0 \<le> y" "y \<le> 9999"
  shows "isoDate t = padStart 4 (nat y) @ ''-''
      @ padStart 2 (nat (monthOfDay (DaysInYear y = 366) (t - DayFromYear y) + 1)) @ ''-''
      @ padStart 2 (nat (t - DayFromYear y
          - monthStart (DaysInYear y = 366) (monthOfDay (DaysInYear y = 366) (t - DayFromYear y)) + 1))"
proof -
  have "YearFromTime t = y" using assms(1,2) by (rule YearFromTime_unique)
  then show ?thesis
    using assms(3,4)
    by (simp add: isoDate_def MonthFromTime_def DateFromTime_def DayWithinYear_def InLeapYear_def)
qed

lemma digitChar_literals:
  "digitChar 0 = CHR ''0''" "digitChar 1 = CHR ''1''" "digitChar 2 = CHR ''2''"
  "digitChar 3 = CHR ''3''" "digitChar 4 = CHR ''4''" "digitChar 5 = CHR ''5''"
  "digitChar 6 = CHR ''6''" "digitChar 7 = CHR ''7''" "digitChar 8 = CHR ''8''"
  "digitChar 9 = CHR ''9''" "digitChar (Suc 0) = CHR ''1''"
  by code_simp+

lemmas isoDate_eval = DayFromYear_def DaysInYear_def monthOfDay_def monthStart_def
  padStart_def decimal.simps digitChar_literals

lemma isoDate_samples:
  "isoDate 19734 = ''2024-01-12''" "isoDate 19735 = ''2024-01-13''"
  "isoDate 19736 = ''2024-01-14''" "isoDate 19737 = ''2024-01-15''"
  "isoDate 19738 = ''2024-01-16''" "isoDate 19739 = ''2024-01-17''"
  by (simp_all add: isoDate_in_year [of 2024] isoDate_eval)








subsection \<open>Facts about rendering\<close>

lemma commit_rendered: "rendered today st \<Longrightarrow> commit today st = Inr st"
  by (auto simp: rendered_def commit_def split: sum.splits)

lemma render_rendered: "rendered today st \<Longrightarrow> render today st = Inr st"
  by (simp add: render_def commit_rendered)





subsection \<open>Facts about a lookup in flight\<close>







lemma rendered_after_lookup:
  assumes "rendered today st" "targetDate r = targetDate (exchangeRate (invoiceData st))"
  shows "rendered today (st\<lparr>invoiceData := (invoiceData st)\<lparr>exchangeRate := r\<rparr>,
      rateStatus := rs, lookups := ls, toasts := ts\<rparr>)"
  using assms
  by (simp add: rendered_def resetDepsOf_def fetchDepsOf_def isForeignCurrency_def
      normalizedCurrency_def)




lemma step_ok_status:
  assumes "inFlight today st i (pendingLookup cur d ld a)" "200 \<le> n" "n \<le> 299"
  shows "step today (FetchSettled i (FetchResponse n)) st
     = Inr (st\<lparr>lookups := (lookups st)[i := (pendingLookup cur d ld a)\<lparr>phase := AwaitingJson\<rparr>]\<rparr>)"
proof -
  let ?st' = "st\<lparr>lookups := (lookups st)[i := (pendingLookup cur d ld a)\<lparr>phase := AwaitingJson\<rparr>]\<rparr>"
  have "onFetchSettled i (FetchResponse n) st = ?st'"
    using assms by (simp add: inFlight_def onFetchSettled_def pendingLookup_def)
  moreover have "rendered today ?st'"
    using assms(1) by (simp add: inFlight_def rendered_def resetDepsOf_def fetchDepsOf_def)
  ultimately show ?thesis
    by (simp add: step_def render_rendered)
qed

lemma step_json_rate:
  assumes "inFlight today st i ((pendingLookup cur d ld a)\<lparr>phase := AwaitingJson\<rparr>)"
  shows "step today (JsonSettled i (JsonData (Some (NbpRate eff (Some mid))))) st
     = Inr (st\<lparr>invoiceData := (invoiceData st)\<lparr>exchangeRate :=
                 \<lparr>targetDate = d, effectiveDate = eff, rateValue = Some mid\<rparr>\<rparr>,
             rateStatus := \<lparr>loading = False, error = None\<rparr>,
             lookups := (lookups st)[i := (pendingLookup cur d ld a)\<lparr>phase := Finished\<rparr>],
             toasts := toasts st\<rparr>)"
proof -
  let ?st' = "st\<lparr>invoiceData := (invoiceData st)\<lparr>exchangeRate :=
                 \<lparr>targetDate = d, effectiveDate = eff, rateValue = Some mid\<rparr>\<rparr>,
             rateStatus := \<lparr>loading = False, error = None\<rparr>,
             lookups := (lookups st)[i := (pendingLookup cur d ld a)\<lparr>phase := Finished\<rparr>],
             toasts := toasts st\<rparr>"
  have "onJsonSettled i (JsonData (Some (NbpRate eff (Some mid)))) st = ?st'"
    using assms
    by (simp add: inFlight_def onJsonSettled_def pendingLookup_def finish_def setRate_def)
  moreover have "rendered today ?st'"
    using assms
    by (intro rendered_after_lookup) (simp_all add: inFlight_def pendingLookup_def)
  ultimately show ?thesis
    by (simp add: step_def render_rendered)
qed


lemma inFlight_reading:
  assumes "inFlight today st i (pendingLookup cur d ld a)"
  shows "inFlight today (st\<lparr>lookups := (lookups st)[i := (pendingLookup cur d ld a)\<lparr>phase := AwaitingJson\<rparr>]\<rparr>)
     i ((pendingLookup cur d ld a)\<lparr>phase := AwaitingJson\<rparr>)"
  using assms
  by (simp add: inFlight_def rendered_def resetDepsOf_def fetchDepsOf_def pendingLookup_def)


lemma run_success:
  assumes "inFlight today st i (pendingLookup cur d ld a)" "200 \<le> status" "status \<le> 299"
  shows "run today [FetchSettled i (FetchResponse status),
        JsonSettled i (JsonData (Some (NbpRate eff (Some mid))))] st
     = Inr (st\<lparr>invoiceData := (invoiceData st)\<lparr>exchangeRate :=
                 \<lparr>targetDate = d, effectiveDate = eff, rateValue = Some mid\<rparr>\<rparr>,
             rateStatus := \<lparr>loading = False, error = None\<rparr>,
             lookups := (lookups st)[i := (pendingLookup cur d ld a)\<lparr>phase := Finished\<rparr>],
             toasts := toasts st\<rparr>)"
  using assms step_json_rate [OF inFlight_reading [OF assms(1)], of eff mid]
  by (simp add: step_ok_status)


subsection \<open>The sample states\<close>

lemma previousBusinessDay_samples:
  "getPreviousBusinessDay today ''2024-01-16'' = Inr ''2024-01-15''"
  "getPreviousBusinessDay today ''2024-01-15'' = Inr ''2024-01-12''"
  using getPreviousBusinessDay_isoDate [of 19738 today] getPreviousBusinessDay_isoDate [of 19737 today]
  by (simp_all add: isoDate_samples DayFromYear_100 DayFromYear_10000 stepsBack_def WeekDay_def)

lemma currency_samples:
  "toUpperCase (trim ''EUR'') = ''EUR''" "toUpperCase (trim ''USD'') = ''USD''"
  "toUpperCase (trim ''PLN'') = ''PLN''"
  by code_simp+

lemma isForeign_samples:
  "isForeignCurrency (sampleForeign\<lparr>exchangeRate := r\<rparr>)" "\<not> isForeignCurrency sampleInvoice"
  by (simp_all add: isForeignCurrency_def normalizedCurrency_def sampleForeign_def
      sampleInvoice_def currency_samples)

lemmas form_defs = render_def commit_def resetEffect_def fetchEffect_def loopHead_def
  runCleanup_def resetDepsOf_def fetchDepsOf_def setRate_def finish_def catchBlock_def
  onFetchSettled_def onJsonSettled_def isForeignCurrency_def normalizedCurrency_def
  pendingLookup_def clearedRate_def emptyRate_def MAX_RATE_LOOKBACK_DAYS_def

lemmas sample_defs = sampleForeign_def sampleInvoice_def sampleStarted_def currency_samples
  previousBusinessDay_samples

lemma mount_sampleForeign: "mount 19738 sampleForeign = Inr sampleStarted"
  by (simp add: mount_def form_defs sample_defs)

lemma sampleStarted_inFlight:
  "inFlight 19738 sampleStarted 0 (pendingLookup ''EUR'' (isoDate 19737) (isoDate 19737) 0)"
  by (simp add: inFlight_def rendered_def isoDate_samples form_defs sample_defs)

subsection \<open>The rate lookup\<close>














subsection \<open>Facts about the handlers\<close>

lemma isoDate_nonempty: "isoDate t \<noteq> []"
  by (simp add: isoDate_def Let_def)

lemma toDateString_nonempty: "toDateString d = Inr s \<Longrightarrow> s \<noteq> []"
  by (cases d) (auto simp: isoDate_nonempty)

lemma getPreviousBusinessDay_nonempty: "getPreviousBusinessDay today v = Inr s \<Longrightarrow> s \<noteq> []"
  by (auto simp: getPreviousBusinessDay_def Let_def dest: toDateString_nonempty)

lemma isForeignCurrency_issueDate [simp]:
  "isForeignCurrency (d\<lparr>issueDate := v\<rparr>) = isForeignCurrency d"
  "isForeignCurrency (d\<lparr>exchangeRate := r\<rparr>) = isForeignCurrency d"
  "normalizedCurrency (d\<lparr>issueDate := v\<rparr>) = normalizedCurrency d"
  "normalizedCurrency (d\<lparr>exchangeRate := r\<rparr>) = normalizedCurrency d"
  by (simp_all add: isForeignCurrency_def normalizedCurrency_def)

text \<open>An issue date change that leaves the exchange rate alone.\<close>

lemma issueDate_only:
  assumes "rendered today st" "isForeignCurrency (invoiceData st)"
    and "getPreviousBusinessDay today v = Inr nd"
    and "targetDate (exchangeRate (invoiceData st)) \<noteq> []"
  shows "render today (st\<lparr>invoiceData := (invoiceData st)\<lparr>issueDate := v\<rparr>\<rparr>)
     = Inr (st\<lparr>invoiceData := (invoiceData st)\<lparr>issueDate := v\<rparr>,
             resetDeps := Some (True, targetDate (exchangeRate (invoiceData st)), v)\<rparr>)"
proof -
  let ?s1 = "st\<lparr>invoiceData := (invoiceData st)\<lparr>issueDate := v\<rparr>\<rparr>"
  let ?s2 = "st\<lparr>invoiceData := (invoiceData st)\<lparr>issueDate := v\<rparr>,
             resetDeps := Some (True, targetDate (exchangeRate (invoiceData st)), v)\<rparr>"
  have c1: "commit today ?s1 = Inr ?s2"
    using assms
    by (auto simp add: commit_def rendered_def resetDepsOf_def fetchDepsOf_def resetEffect_def
        Let_def)
  have "rendered today ?s2"
    using assms by (simp add: rendered_def resetDepsOf_def fetchDepsOf_def)
  then show ?thesis by (simp add: render_def c1 commit_rendered)
qed

text \<open>An issue date change that moves the rate date to the new default.\<close>

lemma issueDate_refetch:
  assumes "rendered today st" "isForeignCurrency (invoiceData st)"
    and "getPreviousBusinessDay today v = Inr nd"
    and "targetDate (exchangeRate (invoiceData st)) \<noteq> nd"
  shows "render today
      (st\<lparr>invoiceData := (invoiceData st)\<lparr>issueDate := v,
             exchangeRate := (exchangeRate (invoiceData st))\<lparr>targetDate := nd,
               effectiveDate := [], rateValue := None\<rparr>\<rparr>,
          rateStatus := (rateStatus st)\<lparr>error := None\<rparr>,
          rateFetchTrigger := rateFetchTrigger st + 1\<rparr>)
     = Inr ((runCleanup st)\<lparr>invoiceData := (invoiceData st)\<lparr>issueDate := v,
             exchangeRate := (exchangeRate (invoiceData st))\<lparr>targetDate := nd,
               effectiveDate := [], rateValue := None\<rparr>\<rparr>,
          rateStatus := \<lparr>loading = True, error = None\<rparr>,
          rateFetchTrigger := rateFetchTrigger st + 1,
          resetDeps := Some (True, nd, v),
          fetchDeps := Some (True, nd, rateFetchTrigger st + 1),
          cleanup := Some (length (lookups st)),
          lookups := lookups (runCleanup st)
            @ [pendingLookup (normalizedCurrency (invoiceData st)) nd nd 0],
          requests := requests st @ [(length (lookups st), normalizedCurrency (invoiceData st), nd)]\<rparr>)"
    (is "render today ?s1 = Inr ?s2")
proof -
  have nd: "nd \<noteq> []" using assms(3) by (rule getPreviousBusinessDay_nonempty)
  have len: "length (lookups (runCleanup st)) = length (lookups st)"
    "requests (runCleanup st) = requests st" "toasts (runCleanup st) = toasts st"
    "invoiceData (runCleanup st) = invoiceData st" "rateStatus (runCleanup st) = rateStatus st"
    "rateFetchTrigger (runCleanup st) = rateFetchTrigger st"
    by (simp_all add: runCleanup_def split: option.splits)
  have c1: "commit today ?s1 = Inr ?s2"
    using assms nd
    by (simp add: commit_def rendered_def resetDepsOf_def fetchDepsOf_def resetEffect_def
        fetchEffect_def loopHead_def MAX_RATE_LOOKBACK_DAYS_def pendingLookup_def len Let_def)
      (simp add: runCleanup_def split: option.splits)
  have "rendered today ?s2"
    using assms by (simp add: rendered_def resetDepsOf_def fetchDepsOf_def)
  then show ?thesis by (simp only: render_def c1 sum.case commit_rendered)
qed

text \<open>
  C7.  On a rendered foreign-currency invoice an issue date change \<open>v\<close> (with \<open>pd\<close> and
  \<open>nd\<close> the previous business days of the old and of the new issue date) leaves the
  exchange rate and the lookups as they are and sends no request when the rate date is
  non-empty and differs from \<open>pd\<close>; when the rate date is empty or \<open>pd\<close>, it becomes \<open>nd\<close>,
  and a new lookup sends its request exactly when \<open>nd\<close> differs from the old rate date.
\<close>

theorem issue_date_change:
  assumes "rendered today st" "isForeignCurrency (invoiceData st)"
    and "getPreviousBusinessDay today v = Inr nd"
    and "getPreviousBusinessDay today (issueDate (invoiceData st)) = Inr pd"
  shows "\<exists>st'. step today (IssueDateChange v) st = Inr st' \<and> issueDate (invoiceData st') = v
     \<and> (targetDate (exchangeRate (invoiceData st)) \<noteq> []
          \<and> targetDate (exchangeRate (invoiceData st)) \<noteq> pd
         \<longrightarrow> exchangeRate (invoiceData st') = exchangeRate (invoiceData st)
           \<and> requests st' = requests st \<and> lookups st' = lookups st
           \<and> cleanup st' = cleanup st \<and> rateFetchTrigger st' = rateFetchTrigger st)
     \<and> (targetDate (exchangeRate (invoiceData st)) = []
          \<or> targetDate (exchangeRate (invoiceData st)) = pd
         \<longrightarrow> targetDate (exchangeRate (invoiceData st')) = nd
           \<and> (nd \<noteq> targetDate (exchangeRate (invoiceData st))
               \<longrightarrow> effectiveDate (exchangeRate (invoiceData st')) = []
                 \<and> rateValue (exchangeRate (invoiceData st')) = None
                 \<and> requests st' = requests st
                      @ [(length (lookups st), normalizedCurrency (invoiceData st), nd)])
           \<and> (nd = targetDate (exchangeRate (invoiceData st))
               \<longrightarrow> exchangeRate (invoiceData st') = exchangeRate (invoiceData st)
                 \<and> requests st' = requests st \<and> lookups st' = lookups st))"
proof -
  let ?td = "targetDate (exchangeRate (invoiceData st))"
  have nd: "nd \<noteq> []" using assms(3) by (rule getPreviousBusinessDay_nonempty)
  have foreign: "toUpperCase (trim (currency (invoiceData st))) \<noteq> []"
    "toUpperCase (trim (currency (invoiceData st))) \<noteq> ''PLN''"
    using assms(2) by (simp_all add: isForeignCurrency_def normalizedCurrency_def)
  show ?thesis
  proof (cases "(?td = [] \<or> ?td = pd) \<and> ?td \<noteq> nd")
    case True
    then have "handleIssueDateChange today v st
       = Inr (st\<lparr>invoiceData := (invoiceData st)\<lparr>issueDate := v,
                 exchangeRate := (exchangeRate (invoiceData st))\<lparr>targetDate := nd,
                   effectiveDate := [], rateValue := None\<rparr>\<rparr>,
               rateStatus := (rateStatus st)\<lparr>error := None\<rparr>,
               rateFetchTrigger := rateFetchTrigger st + 1\<rparr>)"
      using assms(3,4) foreign by (auto simp: handleIssueDateChange_def Let_def)
    then show ?thesis
      using True issueDate_refetch [OF assms(1-3), of] by (auto simp: step_def)
  next
    case False
    then have td: "?td \<noteq> []" using nd by auto
    from False have "handleIssueDateChange today v st
       = Inr (st\<lparr>invoiceData := (invoiceData st)\<lparr>issueDate := v\<rparr>\<rparr>)"
      using assms(3,4) foreign by (auto simp: handleIssueDateChange_def Let_def)
    then show ?thesis
      using False issueDate_only [OF assms(1-3) td] by (auto simp: step_def)
  qed
qed

lemma sampleOverridden_rendered: "rendered 19738 sampleOverridden"
  by (simp add: rendered_def sampleOverridden_def form_defs sample_defs)

lemma sampleStarted_rendered: "rendered 19738 sampleStarted"
  using sampleStarted_inFlight by (simp add: inFlight_def)

lemma previousBusinessDay_sample17:
  "getPreviousBusinessDay today ''2024-01-17'' = Inr ''2024-01-16''"
  using getPreviousBusinessDay_isoDate [of 19739 today]
  by (simp add: isoDate_samples DayFromYear_100 DayFromYear_10000 stepsBack_def WeekDay_def)

theorem issue_date_change_witness:
  "rendered 19738 sampleOverridden \<and> isForeignCurrency (invoiceData sampleOverridden)
   \<and> getPreviousBusinessDay 19738 ''2024-01-17'' = Inr ''2024-01-16''
   \<and> getPreviousBusinessDay 19738 (issueDate (invoiceData sampleOverridden)) = Inr ''2024-01-15''
   \<and> targetDate (exchangeRate (invoiceData sampleOverridden)) = ''2024-01-10''
   \<and> (\<exists>st'. step 19738 (IssueDateChange ''2024-01-17'') sampleOverridden = Inr st'
        \<and> exchangeRate (invoiceData st') = clearedRate ''2024-01-10''
        \<and> requests st' = requests sampleOverridden)
   \<and> rendered 19738 sampleStarted \<and> isForeignCurrency (invoiceData sampleStarted)
   \<and> targetDate (exchangeRate (invoiceData sampleStarted)) = ''2024-01-15''
   \<and> (\<exists>st'. step 19738 (IssueDateChange ''2024-01-17'') sampleStarted = Inr st'
        \<and> targetDate (exchangeRate (invoiceData st')) = ''2024-01-16''
        \<and> requests st' = [(0, ''EUR'', ''2024-01-15''), (1, ''EUR'', ''2024-01-16'')])"
proof -
  have f: "isForeignCurrency (invoiceData sampleOverridden)"
    "isForeignCurrency (invoiceData sampleStarted)"
    by (simp_all add: sampleOverridden_def form_defs sample_defs)
  have p: "getPreviousBusinessDay 19738 (issueDate (invoiceData sampleOverridden)) = Inr ''2024-01-15''"
    "getPreviousBusinessDay 19738 (issueDate (invoiceData sampleStarted)) = Inr ''2024-01-15''"
    by (simp_all add: sampleOverridden_def sample_defs)
  have v: "targetDate (exchangeRate (invoiceData sampleOverridden)) = ''2024-01-10''"
    "targetDate (exchangeRate (invoiceData sampleStarted)) = ''2024-01-15''"
    "exchangeRate (invoiceData sampleOverridden) = clearedRate ''2024-01-10''"
    "requests sampleStarted = [(0, ''EUR'', ''2024-01-15'')]" "length (lookups sampleStarted) = 1"
    "normalizedCurrency (invoiceData sampleStarted) = ''EUR''"
    by (simp_all add: sampleOverridden_def form_defs sample_defs)
  show ?thesis
    using issue_date_change [OF sampleOverridden_rendered f(1) previousBusinessDay_sample17 p(1)]
      issue_date_change [OF sampleStarted_rendered f(2) previousBusinessDay_sample17 p(2)]
      sampleOverridden_rendered sampleStarted_rendered f p
    by (simp add: v previousBusinessDay_sample17 clearedRate_def) blast
qed

subsection \<open>The invariant of the exchange rate\<close>

abbreviation rateOf :: "FormState \<Rightarrow> ExchangeRateState" where
  "rateOf st \<equiv> exchangeRate (invoiceData st)"

lemma rateConsistent_cleared [simp]:
  "rateConsistent (clearedRate d)" "rateConsistent emptyRate"
  "rateConsistent \<lparr>targetDate = d, effectiveDate = [], rateValue = None\<rparr>"
  "rateConsistent (r\<lparr>targetDate := d, effectiveDate := [], rateValue := None\<rparr>)"
  "rateConsistent (r\<lparr>targetDate := d\<rparr>) = rateConsistent r"
  by (simp_all add: rateConsistent_def clearedRate_def emptyRate_def)

lemma finish_rate [simp]: "rateOf (finish i lk st) = rateOf st"
  by (simp add: finish_def)

lemma runCleanup_rate [simp]: "rateOf (runCleanup st) = rateOf st"
  by (simp add: runCleanup_def split: option.splits)

lemma setRate_rate [simp]: "rateOf (setRate r st) = r"
  by (simp add: setRate_def)

lemma loopHead_consistent:
  "rateConsistent (rateOf st) \<Longrightarrow> rateConsistent (rateOf (loopHead i lk st))"
  by (simp add: loopHead_def)

lemma catchBlock_consistent:
  "rateConsistent (rateOf st) \<Longrightarrow> rateConsistent (rateOf (catchBlock e i lk st))"
  by (simp add: catchBlock_def)

lemma onFetchSettled_consistent:
  "rateConsistent (rateOf st) \<Longrightarrow> rateConsistent (rateOf (onFetchSettled i r st))"
  by (auto simp: onFetchSettled_def Let_def loopHead_consistent catchBlock_consistent
      split: fetch_result.splits sum.splits)

lemma onJsonSettled_consistent:
  assumes "rateConsistent (rateOf st)" "wellFormed (JsonSettled i r)"
  shows "rateConsistent (rateOf (onJsonSettled i r st))"
proof (cases r)
  case (JsonRejected e)
  then show ?thesis using assms by (simp add: onJsonSettled_def catchBlock_consistent)
next
  case (JsonData d)
  show ?thesis
  proof (cases d)
    case None
    then show ?thesis using assms JsonData by (simp add: onJsonSettled_def catchBlock_consistent)
  next
    case (Some rate)
    obtain eff m where rate: "rate = NbpRate eff m" by (cases rate)
    show ?thesis
    proof (cases m)
      case None
      then show ?thesis
        using assms JsonData Some rate by (simp add: onJsonSettled_def catchBlock_consistent)
    next
      case (Some mid)
      then show ?thesis
        using assms JsonData \<open>d = Some rate\<close> rate
        by (simp add: onJsonSettled_def Let_def rateConsistent_def)
    qed
  qed
qed

lemma resetEffect_consistent:
  assumes "rateConsistent (rateOf st)" "resetEffect today snap st = Inr st'"
  shows "rateConsistent (rateOf st')"
  using assms by (auto simp: resetEffect_def split: if_splits sum.splits)

lemma fetchEffect_consistent:
  "rateConsistent (rateOf st) \<Longrightarrow> rateConsistent (rateOf (fetchEffect snap st))"
  by (simp add: fetchEffect_def Let_def loopHead_consistent)

lemma commit_consistent:
  assumes "rateConsistent (rateOf st)" "commit today st = Inr st'"
  shows "rateConsistent (rateOf st')"
proof -
  define st1 where "st1 = (if fetchDeps st = Some (fetchDepsOf st) then st else runCleanup st)"
  have c1: "rateConsistent (rateOf st1)" using assms(1) by (simp add: st1_def)
  obtain st2 where st2:
    "(if resetDeps st = Some (resetDepsOf st) then Inr st1
      else resetEffect today (invoiceData st) st1) = Inr st2"
    "st' = (if fetchDeps st = Some (fetchDepsOf st) then st2 else fetchEffect (invoiceData st) st2)
            \<lparr>resetDeps := Some (resetDepsOf st), fetchDeps := Some (fetchDepsOf st)\<rparr>"
    using assms(2) unfolding commit_def Let_def st1_def [symmetric]
    by (auto split: sum.splits)
  have "rateConsistent (rateOf st2)"
    using st2(1) c1 resetEffect_consistent [OF c1] by (auto split: if_splits)
  then show ?thesis by (simp add: st2(2) fetchEffect_consistent)
qed

lemma render_consistent:
  assumes "rateConsistent (rateOf st)" "render today st = Inr st'"
  shows "rateConsistent (rateOf st')"
  using assms by (auto simp: render_def split: sum.splits dest: commit_consistent)

lemma handle_consistent:
  assumes "rateConsistent (rateOf st)" "wellFormed e" "handle today e st = Inr st'"
  shows "rateConsistent (rateOf st')"
proof (cases e)
  case (CurrencyChange v)
  then show ?thesis
    using assms by (auto simp: handleCurrencyChange_def Let_def split: sum.splits)
next
  case (RateDateChange v)
  then show ?thesis
    using assms by (auto simp: handleRateDateChange_def Let_def split: sum.splits)
next
  case UsePreviousBusinessDay
  then show ?thesis
    using assms by (auto simp: handleUsePreviousBusinessDay_def Let_def split: sum.splits)
next
  case RefreshRate
  then show ?thesis
    using assms by (auto simp: handleRefreshRate_def Let_def split: sum.splits if_splits)
next
  case (IssueDateChange v)
  then show ?thesis
    using assms by (auto simp: handleIssueDateChange_def Let_def split: sum.splits if_splits)
next
  case (AppendNote n)
  then show ?thesis using assms by (auto simp: appendNote_def Let_def)
next
  case (Edit f)
  then show ?thesis using assms by (cases f) auto
next
  case (FetchSettled i r)
  then show ?thesis using assms by (auto simp: onFetchSettled_consistent)
next
  case (JsonSettled i r)
  then show ?thesis using assms by (auto simp: onJsonSettled_consistent)
qed

text \<open>
  C6, as the code has it.  Mounting the form on an invoice with a consistent rate, and
  every event from a state with a consistent rate, gives a state with a consistent
  rate, provided that a response with a numeric \<open>mid\<close> has a non-empty effective date:
  the form stores the effective date of the response as it comes.
\<close>

theorem rate_consistent_preserved:
  "(rateConsistent (exchangeRate data) \<and> mount today data = Inr st0
      \<longrightarrow> rateConsistent (exchangeRate (invoiceData st0)))
   \<and> (rateConsistent (exchangeRate (invoiceData st)) \<and> wellFormed e
       \<and> step today' e st = Inr st'
      \<longrightarrow> rateConsistent (exchangeRate (invoiceData st')))"
proof (intro conjI impI)
  assume "rateConsistent (exchangeRate data) \<and> mount today data = Inr st0"
  then have "rateConsistent (exchangeRate (invoiceData
      \<lparr>invoiceData = data, rateFetchTrigger = 0,
       rateStatus = \<lparr>loading = False, error = None\<rparr>, resetDeps = None, fetchDeps = None,
       cleanup = None, lookups = [], requests = [], toasts = []\<rparr>))"
    "render today \<lparr>invoiceData = data, rateFetchTrigger = 0,
       rateStatus = \<lparr>loading = False, error = None\<rparr>, resetDeps = None, fetchDeps = None,
       cleanup = None, lookups = [], requests = [], toasts = []\<rparr> = Inr st0"
    by (simp_all add: mount_def)
  then show "rateConsistent (exchangeRate (invoiceData st0))"
    by (rule render_consistent)
next
  assume a: "rateConsistent (exchangeRate (invoiceData st)) \<and> wellFormed e
    \<and> step today' e st = Inr st'"
  show "rateConsistent (exchangeRate (invoiceData st'))"
  proof (cases "enabled e st")
    case True
    then obtain st1 where "handle today' e st = Inr st1" "render today' st1 = Inr st'"
      using a by (auto simp: step_def split: sum.splits)
    then show ?thesis using a handle_consistent render_consistent by blast
  next
    case False
    then show ?thesis using a by (auto simp: step_def)
  qed
qed

lemma sampleReading_step:
  "step 19738 (FetchSettled 0 (FetchResponse 200)) sampleStarted = Inr sampleReading"
  using step_ok_status [OF sampleStarted_inFlight, of 200]
  by (simp add: sampleReading_def isoDate_samples) (simp add: sampleStarted_def)

lemma sampleResolved_step:
  "step 19738 (JsonSettled 0 (JsonData (Some (NbpRate eff (Some (9 / 2)))))) sampleReading
     = Inr (sampleResolved eff)"
  using step_json_rate [OF inFlight_reading [OF sampleStarted_inFlight], of eff "9 / 2"]
  by (simp add: sampleReading_def sampleResolved_def isoDate_samples)
    (simp add: sampleStarted_def clearedRate_def)

theorem rate_consistent_preserved_witness:
  "rateConsistent (exchangeRate sampleForeign) \<and> mount 19738 sampleForeign = Inr sampleStarted
   \<and> rateConsistent (exchangeRate (invoiceData sampleStarted))
   \<and> rateConsistent (exchangeRate (invoiceData sampleReading))
   \<and> wellFormed (JsonSettled 0 (JsonData (Some (NbpRate ''2024-01-12'' (Some (9 / 2))))))
   \<and> step 19738 (JsonSettled 0 (JsonData (Some (NbpRate ''2024-01-12'' (Some (9 / 2))))))
        sampleReading = Inr (sampleResolved ''2024-01-12'')
   \<and> rateConsistent (exchangeRate (invoiceData (sampleResolved ''2024-01-12'')))"
proof -
  have c: "rateConsistent (exchangeRate sampleForeign)"
    by (simp add: sample_defs emptyRate_def rateConsistent_def)
  have w: "wellFormed (JsonSettled 0 (JsonData (Some (NbpRate ''2024-01-12'' (Some (9 / 2))))))"
    by simp
  have "rateConsistent (exchangeRate (invoiceData sampleStarted))"
    using rate_consistent_preserved [of sampleForeign 19738 sampleStarted] c mount_sampleForeign
    by simp
  moreover have r: "rateConsistent (exchangeRate (invoiceData sampleReading))"
    by (simp add: sampleReading_def sample_defs clearedRate_def rateConsistent_def)
  moreover have "rateConsistent (exchangeRate (invoiceData (sampleResolved ''2024-01-12'')))"
    using rate_consistent_preserved [of _ _ _ sampleReading
        "JsonSettled 0 (JsonData (Some (NbpRate ''2024-01-12'' (Some (9 / 2)))))" 19738
        "sampleResolved ''2024-01-12''"] r w sampleResolved_step
    by simp
  ultimately show ?thesis using c w mount_sampleForeign sampleResolved_step by simp
qed

text \<open>
  C6 as stated fails: a response with a numeric \<open>mid\<close> and an empty effective date is
  applied as it is, and the state reached has a value and no effective date.
\<close>

theorem rate_invariant_counterexample:
  "reachable (sampleResolved [])
   \<and> rateValue (exchangeRate (invoiceData (sampleResolved []))) = Some (9 / 2)
   \<and> effectiveDate (exchangeRate (invoiceData (sampleResolved []))) = []
   \<and> rateConsistent (exchangeRate (invoiceData sampleReading))
   \<and> step 19738 (JsonSettled 0 (JsonData (Some (NbpRate [] (Some (9 / 2)))))) sampleReading
        = Inr (sampleResolved [])
   \<and> \<not> rateConsistent (exchangeRate (invoiceData (sampleResolved [])))"
proof -
  have "reachable sampleStarted" using mount_sampleForeign by (rule mounted)
  then have "reachable sampleReading" using sampleReading_step by (rule stepped)
  then have "reachable (sampleResolved [])" using sampleResolved_step by (rule stepped)
  moreover have "rateConsistent (exchangeRate (invoiceData sampleReading))"
    by (simp add: sampleReading_def sample_defs clearedRate_def rateConsistent_def)
  ultimately show ?thesis
    using sampleResolved_step [of "[]"] by (simp add: sampleResolved_def rateConsistent_def)
qed

subsection \<open>What a settled request changes\<close>

lemma isForeign_setRate [simp]:
  "isForeignCurrency (invoiceData (setRate r st)) = isForeignCurrency (invoiceData st)"
  "issueDate (invoiceData (setRate r st)) = issueDate (invoiceData st)"
  "currency (invoiceData (setRate r st)) = currency (invoiceData st)"
  by (simp_all add: setRate_def)

lemma setRate_fields [simp]:
  "lookups (setRate r st) = lookups st" "cleanup (setRate r st) = cleanup st"
  "fetchDeps (setRate r st) = fetchDeps st" "resetDeps (setRate r st) = resetDeps st"
  "requests (setRate r st) = requests st" "rateFetchTrigger (setRate r st) = rateFetchTrigger st"
  "toasts (setRate r st) = toasts st" "rateStatus (setRate r st) = rateStatus st"
  by (simp_all add: setRate_def)

lemma sameLookups_refl: "sameLookups st st"
  by (simp add: sameLookups_def)

lemma sameLookups_finish:
  assumes "i < length (lookups st)" "isCancelled lk = isCancelled (lookups st ! i)"
    and "sameLookups st0 st" "lookups st0 = lookups st"
  shows "sameLookups st0 (finish i lk st)"
  using assms by (auto simp: sameLookups_def finish_def nth_list_update)

lemma sameLookups_loopHead:
  assumes "i < length (lookups st)" "isCancelled lk = isCancelled (lookups st ! i)"
    and "phase (lookups st ! i) \<noteq> Finished"
  shows "sameLookups st (loopHead i lk st)"
  using assms by (auto simp: sameLookups_def loopHead_def finish_def nth_list_update)

lemma sameLookups_catchBlock:
  assumes "i < length (lookups st)" "lk = lookups st ! i"
  shows "sameLookups st (catchBlock e i lk st)"
  using assms by (auto simp: sameLookups_def catchBlock_def finish_def nth_list_update)

lemma sameLookups_onFetchSettled: "sameLookups st (onFetchSettled i r st)"
proof (cases "i < length (lookups st) \<and> phase (lookups st ! i) = AwaitingFetch")
  case False
  then show ?thesis by (auto simp: onFetchSettled_def sameLookups_refl)
next
  case True
  show ?thesis
  proof (cases r)
    case (FetchRejected e)
    then show ?thesis using True by (simp add: onFetchSettled_def sameLookups_catchBlock)
  next
    case (FetchResponse n)
    show ?thesis
    proof (cases "n = 404")
      case True
      with \<open>i < length (lookups st) \<and> phase (lookups st ! i) = AwaitingFetch\<close> FetchResponse
      show ?thesis
        by (auto simp: onFetchSettled_def Let_def sameLookups_catchBlock sameLookups_loopHead
            split: sum.splits)
    next
      case False
      with True FetchResponse show ?thesis
        by (auto simp: onFetchSettled_def Let_def sameLookups_catchBlock)
          (auto simp: sameLookups_def nth_list_update)
    qed
  qed
qed

lemma sameLookups_onJsonSettled: "sameLookups st (onJsonSettled i r st)"
proof (cases "i < length (lookups st) \<and> phase (lookups st ! i) = AwaitingJson")
  case False
  then show ?thesis by (auto simp: onJsonSettled_def sameLookups_refl)
next
  case True
  have fin: "sameLookups st (finish i (lookups st ! i) st')"
    if "lookups st' = lookups st" "sameLookups st st'" for st'
    using that True by (intro sameLookups_finish) simp_all
  have set: "sameLookups st ((setRate x st)\<lparr>rateStatus := y\<rparr>)" for x y
    by (simp add: sameLookups_def)
  show ?thesis
  proof (cases r)
    case (JsonRejected e)
    then show ?thesis using True by (simp add: onJsonSettled_def sameLookups_catchBlock)
  next
    case (JsonData d)
    then show ?thesis
      using True fin [OF _ sameLookups_refl] fin [OF _ set]
      by (auto simp: onJsonSettled_def Let_def sameLookups_catchBlock
          split: option.splits nbp_rate.splits)
  qed
qed

lemma lookupsInv_sameLookups:
  assumes "lookupsInv st" "sameLookups st st'"
  shows "lookupsInv st'"
  using assms unfolding lookupsInv_def sameLookups_def by metis

text \<open>A cancelled or finished lookup leaves the invoice as it is.\<close>

lemma inert_onFetchSettled:
  assumes "i < length (lookups st) \<longrightarrow> isCancelled (lookups st ! i) \<or> phase (lookups st ! i) = Finished"
  shows "invoiceData (onFetchSettled i r st) = invoiceData st
     \<and> requests (onFetchSettled i r st) = requests st
     \<and> rateStatus (onFetchSettled i r st) = rateStatus st
     \<and> toasts (onFetchSettled i r st) = toasts st"
  using assms
  by (auto simp: onFetchSettled_def Let_def catchBlock_def loopHead_def finish_def
      split: fetch_result.splits sum.splits)

lemma inert_onJsonSettled:
  assumes "i < length (lookups st) \<longrightarrow> isCancelled (lookups st ! i) \<or> phase (lookups st ! i) = Finished"
  shows "invoiceData (onJsonSettled i r st) = invoiceData st
     \<and> requests (onJsonSettled i r st) = requests st
     \<and> rateStatus (onJsonSettled i r st) = rateStatus st
     \<and> toasts (onJsonSettled i r st) = toasts st"
  using assms
  by (auto simp: onJsonSettled_def Let_def catchBlock_def finish_def
      split: json_result.splits option.splits nbp_rate.splits)

subsection \<open>What a commit changes\<close>

lemma rate_empty:
  "targetDate r = [] \<Longrightarrow> effectiveDate r = [] \<Longrightarrow> rateValue r = None \<Longrightarrow> r = emptyRate"
  for r :: ExchangeRateState
  by (simp add: emptyRate_def)

lemma resetEffect_fields:
  assumes "resetEffect today snap st = Inr st'"
  shows "lookups st' = lookups st" "cleanup st' = cleanup st" "fetchDeps st' = fetchDeps st"
    "resetDeps st' = resetDeps st" "requests st' = requests st"
    "rateFetchTrigger st' = rateFetchTrigger st" "toasts st' = toasts st"
    "isForeignCurrency (invoiceData st') = isForeignCurrency (invoiceData st)"
    "issueDate (invoiceData st') = issueDate (invoiceData st)"
    "currency (invoiceData st') = currency (invoiceData st)"
  using assms by (auto simp: resetEffect_def split: if_splits sum.splits)

lemma resetEffect_rate:
  assumes "resetEffect today (invoiceData st0) st = Inr st'" "invoiceData st = invoiceData st0"
  shows "if \<not> isForeignCurrency (invoiceData st0) then rateOf st' = emptyRate
     else if targetDate (rateOf st0) = [] then targetDate (rateOf st') \<noteq> []
     else rateOf st' = rateOf st"
  using assms
  by (auto simp: resetEffect_def emptyRate_def rate_empty
      split: if_splits sum.splits dest: getPreviousBusinessDay_nonempty)

lemma runCleanup_fields [simp]:
  "invoiceData (runCleanup st) = invoiceData st" "requests (runCleanup st) = requests st"
  "rateFetchTrigger (runCleanup st) = rateFetchTrigger st" "toasts (runCleanup st) = toasts st"
  "length (lookups (runCleanup st)) = length (lookups st)"
  "resetDeps (runCleanup st) = resetDeps st" "fetchDeps (runCleanup st) = fetchDeps st"
  by (simp_all add: runCleanup_def split: option.splits)

lemma runCleanup_settled: "lookupsInv st \<Longrightarrow> settled (runCleanup st)"
  by (auto simp: lookupsInv_def settled_def runCleanup_def list_all_length nth_list_update
      split: option.splits)

lemma fetchEffect_fields [simp]:
  "invoiceData (fetchEffect snap st) = invoiceData st"
  "rateFetchTrigger (fetchEffect snap st) = rateFetchTrigger st"
  "resetDeps (fetchEffect snap st) = resetDeps st" "fetchDeps (fetchEffect snap st) = fetchDeps st"
  "toasts (fetchEffect snap st) = toasts st"
  by (simp_all add: fetchEffect_def loopHead_def Let_def MAX_RATE_LOOKBACK_DAYS_def)

lemma fetchEffect_requests:
  "requests (fetchEffect snap st) =
     (if isForeignCurrency snap \<and> targetDate (exchangeRate snap) \<noteq> []
      then requests st @ [(length (lookups st), normalizedCurrency snap, targetDate (exchangeRate snap))]
      else requests st)"
  by (simp add: fetchEffect_def loopHead_def Let_def MAX_RATE_LOOKBACK_DAYS_def)

lemma fetchEffect_settled:
  assumes "settled st"
  shows "lookupsInv ((fetchEffect snap st)\<lparr>resetDeps := a,
      fetchDeps := Some (isForeignCurrency snap, b, c)\<rparr>)"
  using assms
  by (auto simp: lookupsInv_def settled_def fetchEffect_def loopHead_def Let_def
      MAX_RATE_LOOKBACK_DAYS_def list_all_length nth_append nth_list_update)

lemma commit_cases:
  assumes "commit today st = Inr st'"
  obtains st1 st2 where
    "st1 = (if fetchDeps st = Some (fetchDepsOf st) then st else runCleanup st)"
    "(if resetDeps st = Some (resetDepsOf st) then Inr st1
      else resetEffect today (invoiceData st) st1) = Inr st2"
    "st' = (if fetchDeps st = Some (fetchDepsOf st) then st2 else fetchEffect (invoiceData st) st2)
            \<lparr>resetDeps := Some (resetDepsOf st), fetchDeps := Some (fetchDepsOf st)\<rparr>"
  using assms unfolding commit_def Let_def by (auto split: sum.splits)

lemma commit_fields:
  assumes "commit today st = Inr st'"
  shows "resetDeps st' = Some (resetDepsOf st)" "fetchDeps st' = Some (fetchDepsOf st)"
    "rateFetchTrigger st' = rateFetchTrigger st"
    "isForeignCurrency (invoiceData st') = isForeignCurrency (invoiceData st)"
    "issueDate (invoiceData st') = issueDate (invoiceData st)"
    "currency (invoiceData st') = currency (invoiceData st)"
proof -
  from assms obtain st1 st2 where c:
    "st1 = (if fetchDeps st = Some (fetchDepsOf st) then st else runCleanup st)"
    "(if resetDeps st = Some (resetDepsOf st) then Inr st1
      else resetEffect today (invoiceData st) st1) = Inr st2"
    "st' = (if fetchDeps st = Some (fetchDepsOf st) then st2 else fetchEffect (invoiceData st) st2)
            \<lparr>resetDeps := Some (resetDepsOf st), fetchDeps := Some (fetchDepsOf st)\<rparr>"
    by (rule commit_cases)
  have d1: "invoiceData st1 = invoiceData st" "rateFetchTrigger st1 = rateFetchTrigger st"
    by (simp_all add: c(1))
  have d2: "rateFetchTrigger st2 = rateFetchTrigger st1"
    "isForeignCurrency (invoiceData st2) = isForeignCurrency (invoiceData st1)"
    "issueDate (invoiceData st2) = issueDate (invoiceData st1)"
    "currency (invoiceData st2) = currency (invoiceData st1)"
    using c(2) by (auto split: if_splits dest: resetEffect_fields)
  show "resetDeps st' = Some (resetDepsOf st)" "fetchDeps st' = Some (fetchDepsOf st)"
    "rateFetchTrigger st' = rateFetchTrigger st"
    "isForeignCurrency (invoiceData st') = isForeignCurrency (invoiceData st)"
    "issueDate (invoiceData st') = issueDate (invoiceData st)"
    "currency (invoiceData st') = currency (invoiceData st)"
    using d1 d2 by (simp_all add: c(3))
qed

lemma commit_rate:
  assumes "commit today st = Inr st'"
  shows "if resetDeps st = Some (resetDepsOf st) then rateOf st' = rateOf st
     else if \<not> isForeignCurrency (invoiceData st) then rateOf st' = emptyRate
     else if targetDate (rateOf st) = [] then targetDate (rateOf st') \<noteq> []
     else rateOf st' = rateOf st"
proof -
  from assms obtain st1 st2 where c:
    "st1 = (if fetchDeps st = Some (fetchDepsOf st) then st else runCleanup st)"
    "(if resetDeps st = Some (resetDepsOf st) then Inr st1
      else resetEffect today (invoiceData st) st1) = Inr st2"
    "st' = (if fetchDeps st = Some (fetchDepsOf st) then st2 else fetchEffect (invoiceData st) st2)
            \<lparr>resetDeps := Some (resetDepsOf st), fetchDeps := Some (fetchDepsOf st)\<rparr>"
    by (rule commit_cases)
  have d1: "invoiceData st1 = invoiceData st" by (simp add: c(1))
  have r: "rateOf st' = rateOf st2" by (simp add: c(3))
  show ?thesis
  proof (cases "resetDeps st = Some (resetDepsOf st)")
    case True
    then show ?thesis using c(2) d1 r by simp
  next
    case False
    then have "resetEffect today (invoiceData st) st1 = Inr st2" using c(2) by simp
    from resetEffect_rate [OF this d1] False show ?thesis by (simp add: r d1)
  qed
qed

lemma commit_lookupsInv:
  assumes "lookupsInv st" "commit today st = Inr st'"
  shows "lookupsInv st'"
proof -
  from assms(2) obtain st1 st2 where c:
    "st1 = (if fetchDeps st = Some (fetchDepsOf st) then st else runCleanup st)"
    "(if resetDeps st = Some (resetDepsOf st) then Inr st1
      else resetEffect today (invoiceData st) st1) = Inr st2"
    "st' = (if fetchDeps st = Some (fetchDepsOf st) then st2 else fetchEffect (invoiceData st) st2)
            \<lparr>resetDeps := Some (resetDepsOf st), fetchDeps := Some (fetchDepsOf st)\<rparr>"
    by (rule commit_cases)
  have same: "lookups st2 = lookups st1" "cleanup st2 = cleanup st1" "fetchDeps st2 = fetchDeps st1"
    using c(2) by (auto split: if_splits dest: resetEffect_fields)
  show ?thesis
  proof (cases "fetchDeps st = Some (fetchDepsOf st)")
    case True
    then have "lookups st' = lookups st" "cleanup st' = cleanup st" "fetchDeps st' = fetchDeps st"
      using same c(1) by (simp_all add: c(3))
    then show ?thesis using assms(1) by (simp add: lookupsInv_def)
  next
    case False
    then have "settled st1" using assms(1) by (simp add: c(1) runCleanup_settled)
    then have "settled st2" using same by (simp add: settled_def)
    from fetchEffect_settled [OF this] False show ?thesis
      by (simp add: c(3) fetchDepsOf_def)
  qed
qed

subsection \<open>Rendering establishes the invariant\<close>

lemma commit_midRender:
  assumes "beforeRender st" "commit today st = Inr st'"
  shows "midRender st'"
proof -
  note f = commit_fields [OF assms(2)]
  note r = commit_rate [OF assms(2)]
  have li: "lookupsInv st'" using assms by (auto simp: beforeRender_def intro: commit_lookupsInv)
  have a: "\<not> isForeignCurrency (invoiceData st') \<longrightarrow> rateOf st' = emptyRate"
    using assms(1) r f(4) by (auto simp: beforeRender_def split: if_splits)
  have b: "isForeignCurrency (invoiceData st') \<and> targetDate (rateOf st') = []
      \<longrightarrow> resetDeps st' = Some (resetDepsOf st')"
    using r f by (auto simp: resetDepsOf_def split: if_splits)
  have c: "resetDeps st' = Some (resetDepsOf st') \<longrightarrow> fetchDeps st' = Some (fetchDepsOf st')"
    using f by (auto simp: resetDepsOf_def fetchDepsOf_def)
  show ?thesis using li a b c by (simp add: midRender_def)
qed

lemma commit_afterRender:
  assumes "midRender st" "commit today st = Inr st'"
  shows "afterRender st'"
proof -
  note f = commit_fields [OF assms(2)]
  note r = commit_rate [OF assms(2)]
  have li: "lookupsInv st'" using assms by (auto simp: midRender_def intro: commit_lookupsInv)
  have same: "rateOf st' = rateOf st"
    using assms(1) r by (auto simp: midRender_def split: if_splits)
  then have "resetDepsOf st' = resetDepsOf st" "fetchDepsOf st' = fetchDepsOf st"
    using f by (simp_all add: resetDepsOf_def fetchDepsOf_def)
  moreover have "\<not> isForeignCurrency (invoiceData st') \<longrightarrow> rateOf st' = emptyRate"
    using assms(1) same f(4) by (simp add: midRender_def)
  ultimately show ?thesis using li f by (simp add: afterRender_def)
qed

lemma render_afterRender:
  assumes "beforeRender st" "render today st = Inr st'"
  shows "afterRender st'"
  using assms
  by (auto simp: render_def split: sum.splits dest: commit_midRender commit_afterRender)

lemma afterRender_beforeRender: "afterRender st \<Longrightarrow> beforeRender st"
  by (simp add: afterRender_def beforeRender_def)

text \<open>Without a foreign currency nothing is pending.\<close>

lemma afterRender_settled:
  assumes "afterRender st" "\<not> isForeignCurrency (invoiceData st)"
  shows "rateOf st = emptyRate" "settled st"
proof -
  show "rateOf st = emptyRate" using assms by (simp add: afterRender_def)
  have "cleanup st = None"
    using assms by (cases "cleanup st") (auto simp: afterRender_def lookupsInv_def fetchDepsOf_def)
  then show "settled st"
    using assms(1) by (auto simp: afterRender_def lookupsInv_def settled_def list_all_length)
qed

subsection \<open>Handlers keep what rendering needs\<close>

lemma appendNote_fields [simp]:
  "currency (appendNote n d) = currency d" "exchangeRate (appendNote n d) = exchangeRate d"
  "issueDate (appendNote n d) = issueDate d"
  "isForeignCurrency (appendNote n d) = isForeignCurrency d"
  by (simp_all add: appendNote_def Let_def isForeignCurrency_def normalizedCurrency_def)

lemma applyEdit_fields [simp]:
  "currency (applyEdit f d) = currency d" "exchangeRate (applyEdit f d) = exchangeRate d"
  "issueDate (applyEdit f d) = issueDate d"
  "isForeignCurrency (applyEdit f d) = isForeignCurrency d"
  by (cases f; simp add: isForeignCurrency_def normalizedCurrency_def)+

lemma lookupsInv_cong:
  assumes "lookupsInv st" "lookups st' = lookups st" "cleanup st' = cleanup st"
    "fetchDeps st' = fetchDeps st"
  shows "lookupsInv st'"
  using assms by (simp add: lookupsInv_def)

lemma beforeRender_foreign:
  assumes "afterRender st" "lookups st' = lookups st" "cleanup st' = cleanup st"
    "fetchDeps st' = fetchDeps st" "isForeignCurrency (invoiceData st')"
  shows "beforeRender st'"
proof -
  have "lookupsInv st" using assms(1) by (simp add: afterRender_def)
  then have "lookupsInv st'" using assms(2-4) by (rule lookupsInv_cong)
  then show ?thesis using assms(5) by (simp add: beforeRender_def)
qed

lemma beforeRender_same_rate:
  assumes "afterRender st" "lookups st' = lookups st" "cleanup st' = cleanup st"
    "fetchDeps st' = fetchDeps st"
    "isForeignCurrency (invoiceData st') = isForeignCurrency (invoiceData st)"
    "\<not> isForeignCurrency (invoiceData st) \<longrightarrow> rateOf st' = rateOf st"
  shows "beforeRender st'"
proof -
  have "lookupsInv st" using assms(1) by (simp add: afterRender_def)
  then have "lookupsInv st'" using assms(2-4) by (rule lookupsInv_cong)
  moreover have "\<not> isForeignCurrency (invoiceData st') \<longrightarrow> rateOf st' = emptyRate"
    using assms(1,5,6) by (simp add: afterRender_def)
  ultimately show ?thesis by (simp add: beforeRender_def)
qed

lemma handle_beforeRender:
  assumes "afterRender st" "enabled e st" "handle today e st = Inr st'"
  shows "beforeRender st'"
proof (cases e)
  case (CurrencyChange v)
  from assms(3) CurrencyChange obtain dflt where
    d: "getPreviousBusinessDay today (issueDate (invoiceData st)) = Inr dflt"
    by (auto simp: handleCurrencyChange_def Let_def split: sum.splits)
  have dne: "dflt \<noteq> []" using d by (rule getPreviousBusinessDay_nonempty)
  have st': "lookups st' = lookups st" "cleanup st' = cleanup st" "fetchDeps st' = fetchDeps st"
    "resetDeps st' = resetDeps st" "issueDate (invoiceData st') = issueDate (invoiceData st)"
    using assms(3) CurrencyChange d by (auto simp: handleCurrencyChange_def Let_def)
  have rate: "rateOf st' = emptyRate \<or> targetDate (rateOf st') \<noteq> []
      \<and> (targetDate (rateOf st) = [] \<longrightarrow> targetDate (rateOf st') \<noteq> targetDate (rateOf st))"
    using assms(3) CurrencyChange d dne
    by (auto simp: handleCurrencyChange_def Let_def emptyRate_def)
  have "lookupsInv st" using assms(1) by (simp add: afterRender_def)
  then have "lookupsInv st'" using st'(1-3) by (rule lookupsInv_cong)
  moreover have "rateOf st' = emptyRate"
    if n: "\<not> isForeignCurrency (invoiceData st')" and s: "resetDeps st' = Some (resetDepsOf st')"
  proof (rule ccontr)
    assume ne: "rateOf st' \<noteq> emptyRate"
    have "resetDepsOf st' = resetDepsOf st" using s st'(4) assms(1) by (simp add: afterRender_def)
    then have eq: "isForeignCurrency (invoiceData st) = isForeignCurrency (invoiceData st')"
      "targetDate (rateOf st) = targetDate (rateOf st')"
      by (simp_all add: resetDepsOf_def)
    then have "rateOf st = emptyRate" using n assms(1) by (simp add: afterRender_def)
    then have "targetDate (rateOf st) = []" by (simp add: emptyRate_def)
    with rate ne eq show False by simp
  qed
  ultimately show ?thesis by (simp add: beforeRender_def)
next
  case (RateDateChange v)
  then have "lookups st' = lookups st" "cleanup st' = cleanup st" "fetchDeps st' = fetchDeps st"
    "isForeignCurrency (invoiceData st')"
    using assms(2,3) by (auto simp: handleRateDateChange_def Let_def split: sum.splits)
  then show ?thesis by (rule beforeRender_foreign [OF assms(1)])
next
  case UsePreviousBusinessDay
  then have "lookups st' = lookups st" "cleanup st' = cleanup st" "fetchDeps st' = fetchDeps st"
    "isForeignCurrency (invoiceData st')"
    using assms(2,3) by (auto simp: handleUsePreviousBusinessDay_def Let_def split: sum.splits)
  then show ?thesis by (rule beforeRender_foreign [OF assms(1)])
next
  case RefreshRate
  then have "lookups st' = lookups st" "cleanup st' = cleanup st" "fetchDeps st' = fetchDeps st"
    "isForeignCurrency (invoiceData st')"
    using assms(2,3) by (auto simp: handleRefreshRate_def Let_def split: sum.splits if_splits)
  then show ?thesis by (rule beforeRender_foreign [OF assms(1)])
next
  case (IssueDateChange v)
  then have "lookups st' = lookups st" "cleanup st' = cleanup st" "fetchDeps st' = fetchDeps st"
    "isForeignCurrency (invoiceData st') = isForeignCurrency (invoiceData st)"
    "\<not> isForeignCurrency (invoiceData st) \<longrightarrow> rateOf st' = rateOf st"
    using assms(3)
    by (auto simp: handleIssueDateChange_def Let_def isForeignCurrency_def normalizedCurrency_def
        split: sum.splits if_splits)
  then show ?thesis by (rule beforeRender_same_rate [OF assms(1)])
next
  case (AppendNote n)
  then have "lookups st' = lookups st" "cleanup st' = cleanup st" "fetchDeps st' = fetchDeps st"
    "isForeignCurrency (invoiceData st') = isForeignCurrency (invoiceData st)"
    "rateOf st' = rateOf st"
    using assms(3) by auto
  then show ?thesis by (intro beforeRender_same_rate [OF assms(1)]) simp_all
next
  case (Edit f)
  then have "lookups st' = lookups st" "cleanup st' = cleanup st" "fetchDeps st' = fetchDeps st"
    "isForeignCurrency (invoiceData st') = isForeignCurrency (invoiceData st)"
    "rateOf st' = rateOf st"
    using assms(3) by auto
  then show ?thesis by (intro beforeRender_same_rate [OF assms(1)]) simp_all
next
  case (FetchSettled i r)
  then have st': "st' = onFetchSettled i r st" using assms(3) by simp
  have s: "sameLookups st st'" unfolding st' by (rule sameLookups_onFetchSettled)
  have li: "lookupsInv st'"
    using assms(1) s by (auto simp: afterRender_def intro: lookupsInv_sameLookups)
  have "rateOf st' = emptyRate" if n: "\<not> isForeignCurrency (invoiceData st')"
  proof -
    have nf: "\<not> isForeignCurrency (invoiceData st)" using n s by (simp add: sameLookups_def)
    then have "settled st" using afterRender_settled(2) [OF assms(1)] by simp
    then have "invoiceData st' = invoiceData st"
      unfolding st' using inert_onFetchSettled [of i st r]
      by (auto simp: settled_def list_all_length)
    then show ?thesis using afterRender_settled(1) [OF assms(1) nf] by simp
  qed
  then show ?thesis using li by (simp add: beforeRender_def)
next
  case (JsonSettled i r)
  then have st': "st' = onJsonSettled i r st" using assms(3) by simp
  have s: "sameLookups st st'" unfolding st' by (rule sameLookups_onJsonSettled)
  have li: "lookupsInv st'"
    using assms(1) s by (auto simp: afterRender_def intro: lookupsInv_sameLookups)
  have "rateOf st' = emptyRate" if n: "\<not> isForeignCurrency (invoiceData st')"
  proof -
    have nf: "\<not> isForeignCurrency (invoiceData st)" using n s by (simp add: sameLookups_def)
    then have "settled st" using afterRender_settled(2) [OF assms(1)] by simp
    then have "invoiceData st' = invoiceData st"
      unfolding st' using inert_onJsonSettled [of i st r]
      by (auto simp: settled_def list_all_length)
    then show ?thesis using afterRender_settled(1) [OF assms(1) nf] by simp
  qed
  then show ?thesis using li by (simp add: beforeRender_def)
qed

lemma step_afterRender:
  assumes "afterRender st" "step today e st = Inr st'"
  shows "afterRender st'"
proof (cases "enabled e st")
  case True
  then obtain st1 where "handle today e st = Inr st1" "render today st1 = Inr st'"
    using assms(2) by (auto simp: step_def split: sum.splits)
  then show ?thesis
    using handle_beforeRender [OF assms(1) True] render_afterRender by blast
next
  case False
  then show ?thesis using assms by (auto simp: step_def)
qed

lemma reachable_afterRender: "reachable st \<Longrightarrow> afterRender st"
proof (induction rule: reachable.induct)
  case (mounted today data st)
  have "beforeRender \<lparr>invoiceData = data, rateFetchTrigger = 0,
       rateStatus = \<lparr>loading = False, error = None\<rparr>, resetDeps = None, fetchDeps = None,
       cleanup = None, lookups = [], requests = [], toasts = []\<rparr>"
    by (simp add: beforeRender_def lookupsInv_def)
  then show ?case using mounted by (auto simp: mount_def intro: render_afterRender)
next
  case (stepped st today e st')
  then show ?case by (auto intro: step_afterRender)
qed

subsection \<open>The domestic invoice\<close>

lemma commit_requests_domestic:
  assumes "commit today st = Inr st'" "\<not> isForeignCurrency (invoiceData st)"
  shows "requests st' = requests st"
proof -
  from assms(1) obtain st1 st2 where c:
    "st1 = (if fetchDeps st = Some (fetchDepsOf st) then st else runCleanup st)"
    "(if resetDeps st = Some (resetDepsOf st) then Inr st1
      else resetEffect today (invoiceData st) st1) = Inr st2"
    "st' = (if fetchDeps st = Some (fetchDepsOf st) then st2 else fetchEffect (invoiceData st) st2)
            \<lparr>resetDeps := Some (resetDepsOf st), fetchDeps := Some (fetchDepsOf st)\<rparr>"
    by (rule commit_cases)
  have "requests st1 = requests st" by (simp add: c(1))
  moreover have "requests st2 = requests st1"
    using c(2) by (auto split: if_splits dest: resetEffect_fields)
  ultimately show ?thesis using assms(2) by (simp add: c(3) fetchEffect_requests)
qed

lemma render_domestic:
  assumes "render today st = Inr st'" "\<not> isForeignCurrency (invoiceData st)"
  shows "requests st' = requests st" "currency (invoiceData st') = currency (invoiceData st)"
proof -
  from assms(1) obtain st1 where c: "commit today st = Inr st1" "commit today st1 = Inr st'"
    by (auto simp: render_def split: sum.splits)
  have n: "\<not> isForeignCurrency (invoiceData st1)" using assms(2) commit_fields(4) [OF c(1)] by simp
  show "requests st' = requests st"
    using commit_requests_domestic [OF c(1) assms(2)] commit_requests_domestic [OF c(2) n] by simp
  show "currency (invoiceData st') = currency (invoiceData st)"
    using commit_fields(6) [OF c(1)] commit_fields(6) [OF c(2)] by simp
qed

lemma commit_total:
  assumes "getPreviousBusinessDay today (issueDate (invoiceData st)) = Inr m"
  shows "\<exists>st'. commit today st = Inr st'"
  using assms by (auto simp: commit_def Let_def resetEffect_def split: sum.splits)

lemma render_total:
  assumes "getPreviousBusinessDay today (issueDate (invoiceData st)) = Inr m"
  shows "\<exists>st'. render today st = Inr st'"
proof -
  obtain st1 where c: "commit today st = Inr st1" using commit_total [OF assms] by blast
  then have "getPreviousBusinessDay today (issueDate (invoiceData st1)) = Inr m"
    using assms commit_fields(5) [OF c] by simp
  from commit_total [OF this] c show ?thesis by (simp add: render_def)
qed

lemma domestic_PLN: "currency d = ''PLN'' \<Longrightarrow> \<not> isForeignCurrency d"
  by (simp add: isForeignCurrency_def normalizedCurrency_def currency_samples)

text \<open>
  The state a handler leaves is the one the form is rendered with before any effect
  runs.  In it, too, an invoice in PLN has the empty rate.
\<close>

lemma handle_domestic:
  assumes "afterRender st" "enabled e st" "handle today e st = Inr st'"
    and "currency (invoiceData st') = ''PLN''"
  shows "rateOf st' = emptyRate"
proof -
  have nf: "\<not> isForeignCurrency (invoiceData st')" using assms(4) by (rule domestic_PLN)
  have keep: "rateOf st' = emptyRate"
    if "currency (invoiceData st) = currency (invoiceData st')" "rateOf st' = rateOf st"
  proof -
    have "\<not> isForeignCurrency (invoiceData st)" using that(1) assms(4) by (simp add: domestic_PLN)
    then show ?thesis using assms(1) that(2) by (simp add: afterRender_def)
  qed
  show ?thesis
  proof (cases e)
    case (CurrencyChange v)
    then show ?thesis
      using assms(3,4)
      by (auto simp: handleCurrencyChange_def Let_def emptyRate_def split: sum.splits if_splits)
  next
    case (RateDateChange v)
    then have "isForeignCurrency (invoiceData st')"
      using assms(2,3) by (auto simp: handleRateDateChange_def Let_def split: sum.splits)
    with nf show ?thesis by simp
  next
    case UsePreviousBusinessDay
    then have "isForeignCurrency (invoiceData st')"
      using assms(2,3) by (auto simp: handleUsePreviousBusinessDay_def Let_def split: sum.splits)
    with nf show ?thesis by simp
  next
    case RefreshRate
    then have "isForeignCurrency (invoiceData st')"
      using assms(2,3) by (auto simp: handleRefreshRate_def Let_def split: sum.splits if_splits)
    with nf show ?thesis by simp
  next
    case (IssueDateChange v)
    then have "isForeignCurrency (invoiceData st') = isForeignCurrency (invoiceData st)"
      "\<not> isForeignCurrency (invoiceData st) \<longrightarrow> rateOf st' = rateOf st"
      using assms(3)
      by (auto simp: handleIssueDateChange_def Let_def isForeignCurrency_def normalizedCurrency_def
          split: sum.splits if_splits)
    then show ?thesis using nf assms(1) by (simp add: afterRender_def)
  next
    case (AppendNote n)
    then show ?thesis using assms(3) by (intro keep) (auto simp: appendNote_fields)
  next
    case (Edit f)
    then show ?thesis using assms(3) by (intro keep) (auto simp: applyEdit_fields)
  next
    case (FetchSettled i r)
    then have s: "st' = onFetchSettled i r st" using assms(3) by simp
    have sl: "sameLookups st st'" unfolding s by (rule sameLookups_onFetchSettled)
    then have "\<not> isForeignCurrency (invoiceData st)" using nf by (simp add: sameLookups_def)
    then have e: "rateOf st = emptyRate" "settled st"
      using afterRender_settled [OF assms(1)] by simp_all
    then have "i < length (lookups st)
        \<longrightarrow> isCancelled (lookups st ! i) \<or> phase (lookups st ! i) = Finished"
      by (simp add: settled_def list_all_length)
    from inert_onFetchSettled [OF this, of r] e(1) show ?thesis by (simp add: s)
  next
    case (JsonSettled i r)
    then have s: "st' = onJsonSettled i r st" using assms(3) by simp
    have sl: "sameLookups st st'" unfolding s by (rule sameLookups_onJsonSettled)
    then have "\<not> isForeignCurrency (invoiceData st)" using nf by (simp add: sameLookups_def)
    then have e: "rateOf st = emptyRate" "settled st"
      using afterRender_settled [OF assms(1)] by simp_all
    then have "i < length (lookups st)
        \<longrightarrow> isCancelled (lookups st ! i) \<or> phase (lookups st ! i) = Finished"
      by (simp add: settled_def list_all_length)
    from inert_onJsonSettled [OF this, of r] e(1) show ?thesis by (simp add: s)
  qed
qed

text \<open>
  C5.  In every reachable state whose currency is PLN the exchange rate is empty (both
  dates empty, no value) and no lookup is pending; the rate is empty also in the state
  any handler leaves with the currency PLN, before the effects have run.
  \<open>handleCurrencyChange\<close> with the value PLN, on any state, writes the empty rate at once,
  stops the loading indicator and sends no request.  Setting the currency to PLN, from
  any reachable state, gives a state with the empty rate and no pending lookup, and
  sends no request; it succeeds from every rendered state.
\<close>

theorem domestic_has_no_rate:
  assumes "reachable st"
  shows "(currency (invoiceData st) = ''PLN''
          \<longrightarrow> exchangeRate (invoiceData st) = emptyRate \<and> settled st)
     \<and> (enabled e st \<and> handle today e st = Inr st1 \<and> currency (invoiceData st1) = ''PLN''
          \<longrightarrow> exchangeRate (invoiceData st1) = emptyRate)
     \<and> (toUpperCase (trim v) = ''PLN'' \<and> handleCurrencyChange today v s0 = Inr s1
          \<longrightarrow> currency (invoiceData s1) = ''PLN''
            \<and> exchangeRate (invoiceData s1) = emptyRate
            \<and> rateStatus s1 = \<lparr>loading = False, error = None\<rparr>
            \<and> lookups s1 = lookups s0 \<and> requests s1 = requests s0)
     \<and> (toUpperCase (trim v) = ''PLN'' \<and> step today (CurrencyChange v) st = Inr st'
          \<longrightarrow> currency (invoiceData st') = ''PLN''
            \<and> exchangeRate (invoiceData st') = emptyRate \<and> settled st'
            \<and> requests st' = requests st)
     \<and> (toUpperCase (trim v) = ''PLN'' \<and> rendered today st
          \<longrightarrow> (\<exists>st''. step today (CurrencyChange v) st = Inr st''))"
proof -
  have 1: "currency (invoiceData st) = ''PLN''
      \<longrightarrow> exchangeRate (invoiceData st) = emptyRate \<and> settled st"
  proof
    assume "currency (invoiceData st) = ''PLN''"
    then have "\<not> isForeignCurrency (invoiceData st)" by (rule domestic_PLN)
    with reachable_afterRender [OF assms]
    show "exchangeRate (invoiceData st) = emptyRate \<and> settled st"
      by (simp add: afterRender_settled)
  qed
  have 2: "toUpperCase (trim v) = ''PLN'' \<and> step today (CurrencyChange v) st = Inr st'
      \<longrightarrow> currency (invoiceData st') = ''PLN''
        \<and> exchangeRate (invoiceData st') = emptyRate \<and> settled st'
        \<and> requests st' = requests st"
  proof
  assume a: "toUpperCase (trim v) = ''PLN'' \<and> step today (CurrencyChange v) st = Inr st'"
  then obtain st1 where h: "handleCurrencyChange today v st = Inr st1"
    and r: "render today st1 = Inr st'"
    by (auto simp: step_def split: sum.splits)
  have st1: "currency (invoiceData st1) = ''PLN''" "requests st1 = requests st"
    using h a by (auto simp: handleCurrencyChange_def Let_def split: sum.splits)
  then have n1: "\<not> isForeignCurrency (invoiceData st1)" by (simp add: domestic_PLN)
  have cur: "currency (invoiceData st') = ''PLN''" "requests st' = requests st"
    using render_domestic [OF r n1] st1 by simp_all
  have "reachable st'" using assms a by (auto intro: stepped)
  then have "afterRender st'" by (rule reachable_afterRender)
  then show "currency (invoiceData st') = ''PLN''
      \<and> exchangeRate (invoiceData st') = emptyRate \<and> settled st' \<and> requests st' = requests st"
    using cur domestic_PLN [OF cur(1)] by (simp add: afterRender_settled)
  qed
  have 3: "toUpperCase (trim v) = ''PLN'' \<and> rendered today st
      \<longrightarrow> (\<exists>st''. step today (CurrencyChange v) st = Inr st'')"
  proof
  assume a: "toUpperCase (trim v) = ''PLN'' \<and> rendered today st"
  then obtain m where m: "getPreviousBusinessDay today (issueDate (invoiceData st)) = Inr m"
    by (auto simp: rendered_def split: sum.splits)
  then obtain st1 where h: "handleCurrencyChange today v st = Inr st1"
    "issueDate (invoiceData st1) = issueDate (invoiceData st)"
    by (auto simp: handleCurrencyChange_def Let_def)
  then have "\<exists>st''. render today st1 = Inr st''" using m by (intro render_total) simp
  then show "\<exists>st''. step today (CurrencyChange v) st = Inr st''"
    using h by (simp add: step_def)
  qed
  have 4: "enabled e st \<and> handle today e st = Inr st1 \<and> currency (invoiceData st1) = ''PLN''
      \<longrightarrow> exchangeRate (invoiceData st1) = emptyRate"
    using handle_domestic [OF reachable_afterRender [OF assms], of e today st1] by blast
  have 5: "toUpperCase (trim v) = ''PLN'' \<and> handleCurrencyChange today v s0 = Inr s1
      \<longrightarrow> currency (invoiceData s1) = ''PLN''
        \<and> exchangeRate (invoiceData s1) = emptyRate
        \<and> rateStatus s1 = \<lparr>loading = False, error = None\<rparr>
        \<and> lookups s1 = lookups s0 \<and> requests s1 = requests s0"
    by (auto simp: handleCurrencyChange_def Let_def emptyRate_def split: sum.splits)
  from 1 2 3 4 5 show ?thesis by blast
qed

theorem domestic_has_no_rate_witness:
  "reachable sampleStarted \<and> toUpperCase (trim '' pln'') = ''PLN'' \<and> rendered 19738 sampleStarted
   \<and> currency (invoiceData sampleStarted) = ''EUR''
   \<and> exchangeRate (invoiceData sampleStarted) = clearedRate ''2024-01-15''
   \<and> enabled (CurrencyChange '' pln'') sampleStarted
   \<and> (\<exists>s1. handle 19738 (CurrencyChange '' pln'') sampleStarted = Inr s1
        \<and> handleCurrencyChange 19738 '' pln'' sampleStarted = Inr s1
        \<and> currency (invoiceData s1) = ''PLN'' \<and> exchangeRate (invoiceData s1) = emptyRate
        \<and> rateStatus s1 = \<lparr>loading = False, error = None\<rparr>
        \<and> lookups s1 = lookups sampleStarted \<and> requests s1 = requests sampleStarted)
   \<and> (\<exists>st'. step 19738 (CurrencyChange '' pln'') sampleStarted = Inr st'
        \<and> reachable st' \<and> currency (invoiceData st') = ''PLN''
        \<and> exchangeRate (invoiceData st') = emptyRate \<and> settled st'
        \<and> requests st' = [(0, ''EUR'', ''2024-01-15'')])"
proof -
  have r: "reachable sampleStarted" using mount_sampleForeign by (rule mounted)
  have u: "toUpperCase (trim '' pln'') = ''PLN''" by code_simp
  obtain s1 where h: "handleCurrencyChange 19738 '' pln'' sampleStarted = Inr s1"
    by (simp add: handleCurrencyChange_def Let_def sample_defs)
  from domestic_has_no_rate [OF r, of "CurrencyChange '' pln''" 19738 s1 "'' pln''" sampleStarted s1] u h
  have s1: "currency (invoiceData s1) = ''PLN''" "exchangeRate (invoiceData s1) = emptyRate"
    "rateStatus s1 = \<lparr>loading = False, error = None\<rparr>"
    "lookups s1 = lookups sampleStarted" "requests s1 = requests sampleStarted"
    by simp_all
  from domestic_has_no_rate [OF r, of _ 19738 _ "'' pln''"] u sampleStarted_rendered
  obtain st' where s: "step 19738 (CurrencyChange '' pln'') sampleStarted = Inr st'" by blast
  with domestic_has_no_rate [OF r, of _ 19738 _ "'' pln''" _ _ st'] u
  have "currency (invoiceData st') = ''PLN''" "exchangeRate (invoiceData st') = emptyRate"
    "settled st'" "requests st' = requests sampleStarted"
    by simp_all
  moreover have "reachable st'" using r s by (rule stepped)
  moreover have "requests sampleStarted = [(0, ''EUR'', ''2024-01-15'')]"
    "currency (invoiceData sampleStarted) = ''EUR''"
    "exchangeRate (invoiceData sampleStarted) = clearedRate ''2024-01-15''"
    by (simp_all add: sample_defs)
  ultimately show ?thesis using r u sampleStarted_rendered s h s1 by simp
qed

subsection \<open>Superseded lookups\<close>

text \<open>
  In a reachable state, the answer to a lookup other than the registered one changes
  neither the invoice nor the status nor the toasts, and no request follows it.
\<close>

lemma superseded_lookup_inert:
  assumes "reachable st" "cleanup st \<noteq> Some j"
    and "e = FetchSettled j r \<or> e = JsonSettled j r'" "step today e st = Inr st'"
  shows "invoiceData st' = invoiceData st \<and> requests st' = requests st
     \<and> rateStatus st' = rateStatus st \<and> toasts st' = toasts st"
proof -
  have ar: "afterRender st" using assms(1) by (rule reachable_afterRender)
  then have fin: "j < length (lookups st)
      \<longrightarrow> isCancelled (lookups st ! j) \<or> phase (lookups st ! j) = Finished"
    using assms(2) by (simp add: afterRender_def lookupsInv_def)
  obtain st1 where h: "handle today e st = Inr st1" and r: "render today st1 = Inr st'"
    using assms(3,4) by (auto simp: step_def split: sum.splits)
  have same: "invoiceData st1 = invoiceData st" "requests st1 = requests st"
    "rateStatus st1 = rateStatus st" "toasts st1 = toasts st"
    using h assms(3) inert_onFetchSettled [OF fin, of r] inert_onJsonSettled [OF fin, of r']
    by auto
  have sl: "sameLookups st st1"
    using h assms(3) sameLookups_onFetchSettled [of st j r] sameLookups_onJsonSettled [of st j r']
    by auto
  have "resetDeps st1 = Some (resetDepsOf st1)" "fetchDeps st1 = Some (fetchDepsOf st1)"
    using ar sl same(1) by (simp_all add: afterRender_def sameLookups_def resetDepsOf_def fetchDepsOf_def)
  moreover have "\<exists>m. getPreviousBusinessDay today (issueDate (invoiceData st1)) = Inr m"
  proof (cases "getPreviousBusinessDay today (issueDate (invoiceData st1))")
    case (Inl err)
    then show ?thesis using r by (simp add: render_def commit_def)
  qed simp
  ultimately have "rendered today st1" by (auto simp: rendered_def)
  then have "st' = st1" using r by (simp add: render_rendered)
  then show ?thesis using same by simp
qed

text \<open>
  A change of the rate date while the lookup for EUR is in flight: the effect runs again,
  cancels lookup 0 and starts lookup 1, whose request is the only new one.
\<close>

lemma date_change_supersedes:
  "(case step 19738 (RateDateChange ''2024-01-12'') sampleStarted of
      Inl err \<Rightarrow> False
    | Inr st \<Rightarrow> isCancelled (lookups st ! 0) \<and> cleanup st = Some 1
        \<and> lookups st ! 1 = pendingLookup ''EUR'' ''2024-01-12'' ''2024-01-12'' 0
        \<and> requests st = [(0, ''EUR'', ''2024-01-15''), (1, ''EUR'', ''2024-01-12'')])"
  by (simp add: step_def handleRateDateChange_def form_defs sample_defs)

text \<open>
  C4.  A new rate date, a new issue date and a refresh supersede the lookup in flight
  (above).  A change from one foreign currency to another does not: the fetch effect
  does not depend on the currency, so no lookup starts for the new currency, the lookup
  in flight is not cancelled, and its rate is applied to the invoice in the new currency.
\<close>

theorem stale_rate_after_currency_switch:
  "mount 19738 sampleForeign = Inr sampleStarted
   \<and> step 19738 (CurrencyChange ''USD'') sampleStarted = Inr sampleSwitched
   \<and> requests sampleSwitched = [(0, ''EUR'', ''2024-01-15'')]
   \<and> lookups sampleSwitched = [pendingLookup ''EUR'' ''2024-01-15'' ''2024-01-15'' 0]
   \<and> run 19738 [FetchSettled 0 (FetchResponse 200),
         JsonSettled 0 (JsonData (Some (NbpRate ''2024-01-15'' (Some (9 / 2)))))] sampleSwitched
       = Inr sampleStale
   \<and> currency (invoiceData sampleStale) = ''USD''
   \<and> rateValue (exchangeRate (invoiceData sampleStale)) = Some (9 / 2)
   \<and> requests sampleStale = [(0, ''EUR'', ''2024-01-15'')]"
proof -
  have sw: "step 19738 (CurrencyChange ''USD'') sampleStarted = Inr sampleSwitched"
    by (simp add: step_def handleCurrencyChange_def sampleSwitched_def form_defs sample_defs)
  have fl: "inFlight 19738 sampleSwitched 0 (pendingLookup ''EUR'' ''2024-01-15'' ''2024-01-15'' 0)"
    by (simp add: inFlight_def rendered_def sampleSwitched_def form_defs sample_defs)
  have s: "(200::nat) \<le> 200" "(200::nat) \<le> 299" by simp_all
  have "run 19738 [FetchSettled 0 (FetchResponse 200),
         JsonSettled 0 (JsonData (Some (NbpRate ''2024-01-15'' (Some (9 / 2)))))] sampleSwitched
       = Inr sampleStale"
    unfolding run_success [OF fl s]
    by (simp add: sampleStale_def sampleSwitched_def sampleStarted_def)
  then show ?thesis
    using sw mount_sampleForeign
    by (simp add: sampleStale_def sampleSwitched_def sampleStarted_def del: run.simps)
qed

end
